theory Spec2Isabelle
  imports Main
begin

section \<open>Strings and characters\<close>

text \<open>
  A JavaScript string is modelled as a \<open>string\<close>: a list of code units, here restricted
  to the code units below 256 (the Latin-1 range), which is what an Isabelle \<open>char\<close>
  holds. Every input the development evaluates is ASCII.
\<close>

definition code :: "char \<Rightarrow> nat" where
  "code c = of_char c"

text \<open>White space and line terminators of the language, as \<open>trim\<close> strips them
  and as \<open>\s\<close> matches them (the members below 256).\<close>

definition isWhiteSpace :: "char \<Rightarrow> bool" where
  "isWhiteSpace c = (code c \<in> {9, 10, 11, 12, 13, 32, 160})"

text \<open>The dot of a regular expression matches everything but a line terminator.\<close>

definition isLineTerminator :: "char \<Rightarrow> bool" where
  "isLineTerminator c = (code c \<in> {10, 13})"

definition isUpper :: "char \<Rightarrow> bool" where
  "isUpper c = (65 \<le> code c \<and> code c \<le> 90)"

definition isLower :: "char \<Rightarrow> bool" where
  "isLower c = (97 \<le> code c \<and> code c \<le> 122)"

definition isLetter :: "char \<Rightarrow> bool" where
  "isLetter c = (isUpper c \<or> isLower c)"

definition isDigit :: "char \<Rightarrow> bool" where
  "isDigit c = (48 \<le> code c \<and> code c \<le> 57)"

text \<open>\<open>\w\<close> is \<open>[A-Za-z0-9_]\<close>, \<open>[\w-]\<close> adds the hyphen, \<open>\S\<close> is everything
  but white space.\<close>

definition isWord :: "char \<Rightarrow> bool" where
  "isWord c = (isLetter c \<or> isDigit c \<or> code c = 95)"

definition isWordOrHyphen :: "char \<Rightarrow> bool" where
  "isWordOrHyphen c = (isWord c \<or> code c = 45)"

definition isNonSpace :: "char \<Rightarrow> bool" where
  "isNonSpace c = (\<not> isWhiteSpace c)"

text \<open>\<open>String.prototype.toLowerCase\<close> on code units below 256: the ASCII capitals and
  the Latin-1 capitals \<open>U+00C0..U+00DE\<close> (the multiplication sign apart) move up by 32.\<close>

definition toLowerChar :: "char \<Rightarrow> char" where
  "toLowerChar c =
     (if isUpper c \<or> (192 \<le> code c \<and> code c \<le> 222 \<and> code c \<noteq> 215)
      then char_of (code c + 32) else c)"

definition toLowerCase :: "string \<Rightarrow> string" where
  "toLowerCase s = map toLowerChar s"

text \<open>\<open>String.prototype.trim\<close>.\<close>

definition trim :: "string \<Rightarrow> string" where
  "trim s = rev (dropWhile isWhiteSpace (rev (dropWhile isWhiteSpace s)))"

text \<open>\<open>String.prototype.startsWith\<close>.\<close>

fun startsWith :: "string \<Rightarrow> string \<Rightarrow> bool" where
  "startsWith s [] = True"
| "startsWith [] (p # ps) = False"
| "startsWith (c # cs) (p # ps) = (c = p \<and> startsWith cs ps)"

section \<open>The suggestion filter of \<open>fetchDuckDuckGoSuggestions\<close>\<close>

text \<open>
  The callback receives the items of the autocomplete answer (each item is modelled by its
  \<open>phrase\<close>) and keeps every phrase that is not identical to the lower-cased search text:
  \<^verbatim>\<open>if (item.phrase === search.toLowerCase()) continue; suggestions.push(item.phrase);\<close>
\<close>

fun autocompleteCallback :: "string \<Rightarrow> string list \<Rightarrow> string list" where
  "autocompleteCallback search [] = []"
| "autocompleteCallback search (phrase # res) =
     (if phrase = toLowerCase search then autocompleteCallback search res
      else phrase # autocompleteCallback search res)"

text \<open>Two strings are identical under case-insensitive comparison when their lower-cased
  forms agree.\<close>

definition sameIgnoringCase :: "string \<Rightarrow> string \<Rightarrow> bool" where
  "sameIgnoringCase a b = (toLowerCase a = toLowerCase b)"

section \<open>Regular expressions\<close>

text \<open>
  The two patterns of the search component are ordinary regular expressions (no
  back-references, no look-around), so \<open>RegExp.prototype.test\<close> on an anchored pattern
  is membership in a regular language. Patterns are terms of \<open>rexp\<close> over character
  classes; matching is by derivatives.
\<close>

datatype rexp =
    Zero
  | One
  | Atom "char \<Rightarrow> bool"
  | Alt rexp rexp
  | Seq rexp rexp
  | Star rexp

fun nullable :: "rexp \<Rightarrow> bool" where
  "nullable Zero = False"
| "nullable One = True"
| "nullable (Atom P) = False"
| "nullable (Alt r s) = (nullable r \<or> nullable s)"
| "nullable (Seq r s) = (nullable r \<and> nullable s)"
| "nullable (Star r) = True"

fun deriv :: "char \<Rightarrow> rexp \<Rightarrow> rexp" where
  "deriv c Zero = Zero"
| "deriv c One = Zero"
| "deriv c (Atom P) = (if P c then One else Zero)"
| "deriv c (Alt r s) = Alt (deriv c r) (deriv c s)"
| "deriv c (Seq r s) =
     (if nullable r then Alt (Seq (deriv c r) s) (deriv c s) else Seq (deriv c r) s)"
| "deriv c (Star r) = Seq (deriv c r) (Star r)"

fun matches :: "rexp \<Rightarrow> string \<Rightarrow> bool" where
  "matches r [] = nullable r"
| "matches r (c # cs) = matches (deriv c r) cs"

text \<open>The quantifiers \<open>?\<close> and \<open>+\<close>, a literal character, and a literal letter under
  the \<open>i\<close> flag (given in both cases).\<close>

definition Opt :: "rexp \<Rightarrow> rexp" where
  "Opt r = Alt One r"

definition Plus1 :: "rexp \<Rightarrow> rexp" where
  "Plus1 r = Seq r (Star r)"

definition Chr :: "char \<Rightarrow> rexp" where
  "Chr a = Atom (\<lambda>c. c = a)"

definition ChrI :: "char \<Rightarrow> char \<Rightarrow> rexp" where
  "ChrI lo up = Atom (\<lambda>c. c = lo \<or> c = up)"

text \<open>\<^verbatim>\<open>/^((https?:\/\/)?[\w-]+(\.[\w-]+)+\.?(:\d+)?(\/\S*)?)$/i\<close>\<close>

definition schemeRe :: rexp where
  "schemeRe =
     Seq (ChrI CHR ''h'' CHR ''H'') (Seq (ChrI CHR ''t'' CHR ''T'')
       (Seq (ChrI CHR ''t'' CHR ''T'') (Seq (ChrI CHR ''p'' CHR ''P'')
         (Seq (Opt (ChrI CHR ''s'' CHR ''S''))
           (Seq (Chr CHR '':'') (Seq (Chr CHR ''/'') (Chr CHR ''/'')))))))"

definition labelRe :: rexp where
  "labelRe = Plus1 (Atom isWordOrHyphen)"

definition urlRe :: rexp where
  "urlRe =
     Seq (Opt schemeRe)
       (Seq labelRe
         (Seq (Plus1 (Seq (Chr CHR ''.'') labelRe))
           (Seq (Opt (Chr CHR ''.''))
             (Seq (Opt (Seq (Chr CHR '':'') (Plus1 (Atom isDigit))))
               (Opt (Seq (Chr CHR ''/'') (Star (Atom isNonSpace))))))))"

definition isUrl :: "string \<Rightarrow> bool" where
  "isUrl s = matches urlRe s"

text \<open>\<^verbatim>\<open>/^[a-zA-Z]+:\/\//i\<close>: the pattern is anchored at the start only, so the test
  holds when some prefix matches, whatever follows.\<close>

definition protocolRe :: rexp where
  "protocolRe =
     Seq (Plus1 (Atom isLetter))
       (Seq (Chr CHR '':'') (Seq (Chr CHR ''/'') (Seq (Chr CHR ''/'') (Star (Atom (\<lambda>c. True))))))"

definition hasProtocol :: "string \<Rightarrow> bool" where
  "hasProtocol s = matches protocolRe s"

section \<open>Commands, the command store and the configuration\<close>

text \<open>
  A command is the object stored under a shortcut key: \<open>name\<close> and \<open>url\<close>, and the
  optional \<open>searchTemplate\<close> (one template or an array of templates), \<open>suggestions\<close>,
  \<open>command\<close> (a redirection) and \<open>key\<close>, the four properties \<open>parseQuery\<close> and
  \<open>onInput\<close> read. An absent property is \<open>None\<close>.
\<close>

datatype template = Single string | Multi "string list"

record cmd =
  name :: string
  url :: string
  searchTemplate :: "template option"
  suggestions :: "string list option"
  command :: "string option"
  key :: "string option"

text \<open>
  \<open>COMMANDS\<close> is a \<open>Map\<close>: keys are unique and keep their insertion order. \<open>set\<close> on a
  key that is present replaces the value in place, on a new key it appends.
\<close>

type_synonym store = "(string \<times> cmd) list"

definition has :: "store \<Rightarrow> string \<Rightarrow> bool" where
  "has m k = (case map_of m k of None \<Rightarrow> False | Some v \<Rightarrow> True)"

definition get :: "store \<Rightarrow> string \<Rightarrow> cmd option" where
  "get m k = map_of m k"

fun mapSet :: "string \<Rightarrow> cmd \<Rightarrow> store \<Rightarrow> store" where
  "mapSet k v [] = [(k, v)]"
| "mapSet k v ((k', v') # m) = (if k' = k then (k, v) # m else (k', v') # mapSet k v m)"

fun mapDelete :: "string \<Rightarrow> store \<Rightarrow> store" where
  "mapDelete k [] = []"
| "mapDelete k ((k', v') # m) = (if k' = k then m else (k', v') # mapDelete k m)"

text \<open>
  The value of a property read from the object \<open>searchEngineTemplates\<close>: undefined, the
  text of an own property, or one of the properties every object inherits from
  \<open>Object.prototype\<close> (a function or an object: truthy, and no text).
\<close>

datatype property = Undefined | Text string | Inherited

definition objectPrototypeNames :: "string list" where
  "objectPrototypeNames =
     [''constructor'', ''hasOwnProperty'', ''isPrototypeOf'', ''propertyIsEnumerable'',
      ''toLocaleString'', ''toString'', ''valueOf'', ''__proto__'', ''__defineGetter__'',
      ''__defineSetter__'', ''__lookupGetter__'', ''__lookupSetter__'']"

definition lookupProperty :: "(string \<times> string) list \<Rightarrow> string \<Rightarrow> property" where
  "lookupProperty obj k =
     (case map_of obj k of
        Some t \<Rightarrow> Text t
      | None \<Rightarrow> if k \<in> set objectPrototypeNames then Inherited else Undefined)"

fun truthyProperty :: "property \<Rightarrow> bool" where
  "truthyProperty Undefined = False"
| "truthyProperty (Text t) = (t \<noteq> [])"
| "truthyProperty Inherited = True"

record config =
  commandPathDelimiter :: string
  commandSearchDelimiter :: string
  searchEngineTemplates :: "(string \<times> string) list"
  defaultSearchEngine :: string
  openLinksInNewTab :: bool
  suggestionLimit :: nat
  defaultSearchTemplate :: property

section \<open>URL construction\<close>

subsection \<open>The anchor element\<close>

text \<open>
  \<open>splitUrl\<close> assigns the URL to the \<open>href\<close> of an anchor element and reads
  \<open>protocol\<close>, \<open>hostname\<close>, \<open>pathname\<close> and \<open>search\<close> back. The anchor element is
  the browser's, not the program's: the resolver takes it as a parameter, a function from
  the text assigned to \<open>href\<close> to the properties read back (\<open>port\<close> among them, which
  is empty when the URL has no port or the default port of its scheme). The browser reads
  every text, relative ones against the address of the page; \<open>None\<close> is the answer of a
  description of the parser that does not cover the text, and the resolver then answers
  \<open>UnsupportedUrl\<close>. Every general property below holds for every such function.
\<close>

record anchor =
  protocol :: string
  hostname :: string
  port :: string
  pathname :: string
  search :: string

type_synonym hrefParser = "string \<Rightarrow> anchor option"

text \<open>
  \<open>parseHref\<close> describes the browser's URL parser on the absolute URLs it leaves as
  they are, and is the parser of the concrete examples: scheme \<open>http://\<close> or
  \<open>https://\<close> in lower case, a host of lower-case letters, digits, hyphens and dots
  whose last label starts with a letter and with no \<open>xn--\<close> label, an optional port of at
  most 65535, a path of unreserved characters and slashes without dot segments, an optional
  query, an optional fragment. On any other text it is \<open>None\<close>. \<open>hostname\<close> is the
  host without the port; \<open>search\<close> is empty for an empty query.
\<close>

fun splitOn :: "char \<Rightarrow> string \<Rightarrow> string list" where
  "splitOn d [] = [[]]"
| "splitOn d (c # cs) =
     (if c = d then [] # splitOn d cs
      else (case splitOn d cs of [] \<Rightarrow> [[c]] | x # xs \<Rightarrow> (c # x) # xs))"

definition isHostChar :: "char \<Rightarrow> bool" where
  "isHostChar c = (isLower c \<or> isDigit c \<or> c = CHR ''-'' \<or> c = CHR ''.'')"

definition validHost :: "string \<Rightarrow> bool" where
  "validHost h =
     (list_all isHostChar h
      \<and> list_all (\<lambda>l. \<not> startsWith l ''xn--'') (splitOn CHR ''.'' h)
      \<and> (case last (splitOn CHR ''.'' h) of [] \<Rightarrow> False | c # l \<Rightarrow> isLower c))"

text \<open>The value of a decimal numeral, as an integer.\<close>

definition digitsValue :: "string \<Rightarrow> int" where
  "digitsValue ds = foldl (\<lambda>n c. 10 * n + (int (code c) - 48)) 0 ds"

definition validPort :: "string \<Rightarrow> bool" where
  "validPort p =
     (case p of [] \<Rightarrow> True
      | c # ds \<Rightarrow> c = CHR '':'' \<and> list_all isDigit ds \<and> digitsValue ds \<le> 65535)"

text \<open>The \<open>port\<close> property: the port in decimal without leading zeros, empty when no
  port is written or the port is the default of the scheme.\<close>

definition portOf :: "string \<Rightarrow> string \<Rightarrow> string" where
  "portOf scheme p =
     (case p of
        [] \<Rightarrow> []
      | c # ds \<Rightarrow>
          if ds = [] then []
          else if digitsValue ds = (if scheme = ''http:'' then 80 else 443) then []
          else (case dropWhile (\<lambda>d. d = CHR ''0'') ds of [] \<Rightarrow> ''0'' | d # r \<Rightarrow> d # r))"

definition isPathChar :: "char \<Rightarrow> bool" where
  "isPathChar c = (isLetter c \<or> isDigit c \<or> c \<in> set ''/-_.~'')"

definition validPath :: "string \<Rightarrow> bool" where
  "validPath p =
     (list_all isPathChar p
      \<and> list_all (\<lambda>seg. seg \<noteq> ''.'' \<and> seg \<noteq> ''..'') (splitOn CHR ''/'' p))"

definition isQueryChar :: "char \<Rightarrow> bool" where
  "isQueryChar c = (isLetter c \<or> isDigit c \<or> c \<in> set ''-_.~=&{}+/%'')"

definition stripScheme :: "string \<Rightarrow> (string \<times> string) option" where
  "stripScheme u =
     (if startsWith u ''https://'' then Some (''https:'', drop 8 u)
      else if startsWith u ''http://'' then Some (''http:'', drop 7 u)
      else None)"

definition isDelim :: "char \<Rightarrow> bool" where
  "isDelim c = (c = CHR ''/'' \<or> c = CHR ''?'' \<or> c = CHR ''#'')"

definition parseHref :: hrefParser where
  "parseHref u =
     (case stripScheme u of
        None \<Rightarrow> None
      | Some (scheme, rest) \<Rightarrow>
          (let authority = takeWhile (\<lambda>c. \<not> isDelim c) rest;
               tail = dropWhile (\<lambda>c. \<not> isDelim c) rest;
               host = takeWhile (\<lambda>c. c \<noteq> CHR '':'') authority;
               port = dropWhile (\<lambda>c. c \<noteq> CHR '':'') authority;
               path = takeWhile (\<lambda>c. c \<noteq> CHR ''?'' \<and> c \<noteq> CHR ''#'') tail;
               afterPath = dropWhile (\<lambda>c. c \<noteq> CHR ''?'' \<and> c \<noteq> CHR ''#'') tail;
               query = (case afterPath of
                          [] \<Rightarrow> []
                        | c # q \<Rightarrow> if c = CHR ''?'' then takeWhile (\<lambda>c. c \<noteq> CHR ''#'') q
                                   else [])
           in if validHost host \<and> validPort port \<and> validPath path \<and> list_all isQueryChar query
              then Some \<lparr> protocol = scheme, hostname = host, port = portOf scheme port,
                          pathname = (if path = [] then ''/'' else path),
                          search = (if query = [] then [] else CHR ''?'' # query) \<rparr>
              else None))"

subsection \<open>\<open>splitUrl\<close>, \<open>encodeURIComponent\<close> and \<open>formatSearchUrl\<close>\<close>

text \<open>\<^verbatim>\<open>baseUrl = `${parser.protocol}//${parser.hostname}`; rest = `${parser.pathname}${parser.search}`\<close>\<close>

definition splitUrl :: "hrefParser \<Rightarrow> string \<Rightarrow> (string \<times> string) option" where
  "splitUrl parser u =
     (case parser u of
        None \<Rightarrow> None
      | Some a \<Rightarrow> Some (protocol a @ ''//'' @ hostname a, pathname a @ search a))"

text \<open>\<open>encodeURIComponent\<close> leaves \<open>A-Z a-z 0-9 - _ . ! ~ * ' ( )\<close> and writes every other
  code unit as the percent-escaped bytes of its UTF-8 form: one byte below 128, two bytes
  from 128 to 255.\<close>

definition isUnreserved :: "char \<Rightarrow> bool" where
  "isUnreserved c = (isLetter c \<or> isDigit c \<or> c \<in> set ''-_.!~*()'' \<or> code c = 39)"

definition hexDigit :: "nat \<Rightarrow> char" where
  "hexDigit n = ''0123456789ABCDEF'' ! (n mod 16)"

definition percent :: "nat \<Rightarrow> string" where
  "percent b = [CHR ''%'', hexDigit (b div 16), hexDigit b]"

definition encodeChar :: "char \<Rightarrow> string" where
  "encodeChar c =
     (if isUnreserved c then [c]
      else if code c < 128 then percent (code c)
      else percent (192 + code c div 64) @ percent (128 + code c mod 64))"

definition encodeURIComponent :: "string \<Rightarrow> string" where
  "encodeURIComponent s = concat (map encodeChar s)"

text \<open>\<^verbatim>\<open>path.replace(/{}/g, urlQuery)\<close>: every occurrence of \<open>{}\<close>, left to right. The
  replacement is an encoded text, which holds no \<open>$\<close>, so it is inserted as it is.\<close>

fun replaceBraces :: "string \<Rightarrow> string \<Rightarrow> string" where
  "replaceBraces [] r = []"
| "replaceBraces [c] r = [c]"
| "replaceBraces (c # d # cs) r =
     (if c = CHR ''{'' \<and> d = CHR ''}'' then r @ replaceBraces cs r
      else c # replaceBraces (d # cs) r)"

text \<open>A URL result is one URL or, for an array of templates, a list of URLs.\<close>

datatype urls = Url string | Urls "string list"

datatype error = UnsupportedUrl | UnsupportedDelimiter

text \<open>\<open>!searchPath\<close> holds for an absent template and for the empty string; an array is
  truthy, also when empty.\<close>

fun falsyTemplate :: "template option \<Rightarrow> bool" where
  "falsyTemplate None = True"
| "falsyTemplate (Some (Single t)) = (t = [])"
| "falsyTemplate (Some (Multi ts)) = False"

definition formatSearchUrl ::
    "hrefParser \<Rightarrow> string \<Rightarrow> template option \<Rightarrow> string \<Rightarrow> error + urls" where
  "formatSearchUrl parser u searchPath searchText =
     (if falsyTemplate searchPath then Inr (Url u)
      else (case splitUrl parser u of
              None \<Rightarrow> Inl UnsupportedUrl
            | Some (baseUrl, rest) \<Rightarrow>
                (let urlQuery = encodeURIComponent searchText
                 in (case searchPath of
                       Some (Multi paths) \<Rightarrow>
                         Inr (Urls (map (\<lambda>path. baseUrl @ replaceBraces path urlQuery) paths))
                     | Some (Single path) \<Rightarrow> Inr (Url (baseUrl @ replaceBraces path urlQuery))
                     | None \<Rightarrow> Inr (Url u)))))"

section \<open>The query resolver: \<open>parseQuery\<close>\<close>

text \<open>
  The object \<open>parseQuery\<close> returns, with the properties of all five cases; a property a
  case does not set is \<open>None\<close>.
\<close>

record parsed =
  r_key :: "string option"
  r_query :: string
  r_search :: "string option"
  r_splitBy :: "string option"
  r_path :: "string option"
  r_url :: urls
  r_searchTemplate :: "template option"

text \<open>
  \<^verbatim>\<open>query.split(new RegExp(`${splitBy}(.*)`))\<close>, of which the code reads the first two
  elements. The delimiter is the source of a regular expression; the model covers a
  delimiter of one character that stands for itself in a pattern (the configuration holds
  a space and a slash, and nothing assigns them). The first element is the text before the
  first delimiter; the second is the capture, the text after it up to the first line
  terminator, and is absent when the query holds no delimiter.
\<close>

definition literalDelimiter :: "string \<Rightarrow> char option" where
  "literalDelimiter d =
     (case d of
        [c] \<Rightarrow> if c \<in> set ''^$.|?*+()[]{}'' \<or> code c = 92 then None else Some c
      | _ \<Rightarrow> None)"

definition splitFirst :: "char \<Rightarrow> string \<Rightarrow> string \<times> string option" where
  "splitFirst d q =
     (case dropWhile (\<lambda>c. c \<noteq> d) q of
        [] \<Rightarrow> (q, None)
      | c # rest \<Rightarrow>
          (takeWhile (\<lambda>c. c \<noteq> d) q, Some (takeWhile (\<lambda>c. \<not> isLineTerminator c) rest)))"

text \<open>A string is truthy when it is present and not empty.\<close>

fun truthy :: "string option \<Rightarrow> bool" where
  "truthy None = False"
| "truthy (Some t) = (t \<noteq> [])"

text \<open>The text that the assignment to \<open>href\<close> makes of a property value: an undefined
  value is the text \<open>undefined\<close>; the text of a built-in function is the platform's and
  outside the model.\<close>

fun hrefText :: "property \<Rightarrow> string option" where
  "hrefText Undefined = Some ''undefined''"
| "hrefText (Text t) = Some t"
| "hrefText Inherited = None"

text \<open>Case 5, the default search.\<close>

definition defaultSearch :: "hrefParser \<Rightarrow> config \<Rightarrow> string \<Rightarrow> error + parsed" where
  "defaultSearch parser cfg query =
     (case hrefText (defaultSearchTemplate cfg) of
        None \<Rightarrow> Inl UnsupportedUrl
      | Some t \<Rightarrow>
          (case splitUrl parser t of
             None \<Rightarrow> Inl UnsupportedUrl
           | Some (baseUrl, rest) \<Rightarrow>
               (case formatSearchUrl parser baseUrl (Some (Single rest)) query of
                  Inl e \<Rightarrow> Inl e
                | Inr u \<Rightarrow>
                    Inr \<lparr> r_key = None, r_query = query, r_search = Some query,
                          r_splitBy = None, r_path = None, r_url = u,
                          r_searchTemplate = None \<rparr>)))"

text \<open>Case 4, the path command, falling through to case 5.\<close>

definition pathCommand :: "hrefParser \<Rightarrow> config \<Rightarrow> store \<Rightarrow> string \<Rightarrow> error + parsed" where
  "pathCommand parser cfg cmds query =
     (case literalDelimiter (commandPathDelimiter cfg) of
        None \<Rightarrow> Inl UnsupportedDelimiter
      | Some d \<Rightarrow>
          (case splitFirst d query of
             (pathKey, path) \<Rightarrow>
               (case get cmds pathKey of
                  None \<Rightarrow> defaultSearch parser cfg query
                | Some c \<Rightarrow>
                    if truthy path then
                      (case splitUrl parser (url c) of
                         None \<Rightarrow> Inl UnsupportedUrl
                       | Some (baseUrl, rest) \<Rightarrow>
                           Inr \<lparr> r_key = Some pathKey, r_query = query, r_search = None,
                                 r_splitBy = Some (commandPathDelimiter cfg), r_path = path,
                                 r_url = Url (baseUrl @ ''/'' @ the path),
                                 r_searchTemplate = None \<rparr>)
                    else defaultSearch parser cfg query)))"

text \<open>Case 3, the search command, falling through to cases 4 and 5.\<close>

definition searchCommand :: "hrefParser \<Rightarrow> config \<Rightarrow> store \<Rightarrow> string \<Rightarrow> error + parsed" where
  "searchCommand parser cfg cmds query =
     (case literalDelimiter (commandSearchDelimiter cfg) of
        None \<Rightarrow> Inl UnsupportedDelimiter
      | Some d \<Rightarrow>
          (case splitFirst d query of
             (searchKey, rawSearch) \<Rightarrow>
               (case get cmds searchKey of
                  None \<Rightarrow> pathCommand parser cfg cmds query
                | Some c \<Rightarrow>
                    if truthy rawSearch then
                      (let searchText = trim (the rawSearch)
                       in (case formatSearchUrl parser (url c) (searchTemplate c) searchText of
                             Inl e \<Rightarrow> Inl e
                           | Inr u \<Rightarrow>
                               Inr \<lparr> r_key = Some searchKey, r_query = query,
                                     r_search = Some searchText,
                                     r_splitBy = Some (commandSearchDelimiter cfg),
                                     r_path = None, r_url = u,
                                     r_searchTemplate = searchTemplate c \<rparr>))
                    else pathCommand parser cfg cmds query)))"

text \<open>
  \<open>parseQuery\<close>: case 1 (a direct URL), case 2 (an exact key, with the recursive call on a
  redirection), then cases 3 to 5. The recursion need not end, so the function is partial:
  \<open>None\<close> is a call that never returns.
\<close>

partial_function (option) parseQuery ::
    "hrefParser \<Rightarrow> config \<Rightarrow> store \<Rightarrow> string \<Rightarrow> (error + parsed) option"
  where
  "parseQuery parser cfg cmds raw =
     (let query = trim raw
      in if isUrl query then
           Some (Inr \<lparr> r_key = None, r_query = query, r_search = None, r_splitBy = None,
                       r_path = None,
                       r_url = Url (if hasProtocol query then query else ''https://'' @ query),
                       r_searchTemplate = None \<rparr>)
         else
           (case get cmds query of
              Some c \<Rightarrow>
                if truthy (command c) then parseQuery parser cfg cmds (the (command c))
                else Some (Inr \<lparr> r_key = key c, r_query = query, r_search = None,
                                  r_splitBy = None, r_path = None, r_url = Url (url c),
                                  r_searchTemplate = None \<rparr>)
            | None \<Rightarrow> Some (searchCommand parser cfg cmds query)))"

section \<open>The suggestions of \<open>onInput\<close>\<close>

text \<open>\<open>attachSearchPrefix\<close>: with a truthy \<open>splitBy\<close>, every suggestion is prefixed with
  the key and the delimiter (an absent key is printed as \<open>undefined\<close>).\<close>

definition attachSearchPrefix :: "string list \<Rightarrow> parsed \<Rightarrow> string list" where
  "attachSearchPrefix array oq =
     (if truthy (r_splitBy oq)
      then map (\<lambda>s. (case r_key oq of None \<Rightarrow> ''undefined'' | Some k \<Rightarrow> k)
                     @ the (r_splitBy oq) @ s) array
      else array)"

text \<open>
  \<open>onInput\<close> followed by \<open>renderSuggestions\<close>, for the text of the input field and the
  items \<open>answer\<close> that the autocomplete source returns for the request: the suggestions
  of the command under the query, then, for a search with fewer local suggestions than the
  limit, the filtered and prefixed phrases of the answer; the first \<open>suggestionLimit\<close>
  of them are rendered. An empty query closes the dialog and renders nothing. The input
  field is taken not to change while the request is pending.
\<close>

definition onInput ::
    "hrefParser \<Rightarrow> config \<Rightarrow> store \<Rightarrow> string list \<Rightarrow> string \<Rightarrow> (error + string list) option"
  where
  "onInput parser cfg cmds answer inputValue =
     (case parseQuery parser cfg cmds inputValue of
        None \<Rightarrow> None
      | Some (Inl e) \<Rightarrow> Some (Inl e)
      | Some (Inr oq) \<Rightarrow>
          if r_query oq = [] then Some (Inr [])
          else
            (let local = (case get cmds (r_query oq) of
                            None \<Rightarrow> []
                          | Some c \<Rightarrow> (case suggestions c of None \<Rightarrow> [] | Some l \<Rightarrow> l));
                 merged = (if truthy (r_search oq) \<and> length local < suggestionLimit cfg
                           then local @ attachSearchPrefix
                                          (autocompleteCallback (the (r_search oq)) answer) oq
                           else local)
             in Some (Inr (take (suggestionLimit cfg) merged))))"

section \<open>The page state, persistence and the settings dialog\<close>

subsection \<open>Local storage and JSON documents\<close>

text \<open>
  The JSON layer is the platform's. A stored text is modelled by what \<open>JSON.parse\<close> makes
  of it: \<open>Malformed t\<close> is a text \<open>t\<close> that \<open>JSON.parse\<close> rejects (the empty text is
  one), \<open>Document d\<close> is the text of an object whose properties are commands, with the
  properties \<open>d\<close> in the order \<open>Object.entries\<close> lists them. Texts of other JSON values
  are outside the model.
\<close>

datatype stored = Malformed string | Document store

record storage =
  ls_commands :: "stored option"
  ls_selectedTheme :: "string option"
  ls_tabBehavior :: "string option"
  ls_searchEngine :: "string option"

text \<open>The state: the \<open>COMMANDS\<close> map, the \<open>CONFIG\<close> object, local storage, the
  \<open>data-theme\<close> attribute of the document and the errors written to the console.\<close>

record state =
  COMMANDS :: store
  CONFIG :: config
  localStorage :: storage
  dataTheme :: string
  consoleErrors :: "string list"

text \<open>
  \<open>Object.fromEntries(COMMANDS)\<close>: an object lists its array-index keys first, in
  ascending numeric order, then its other keys in insertion order. An array index is the
  canonical decimal text of an integer below \<open>2^32 - 1\<close>. The keys of a \<open>Map\<close> are
  unique, so no entry overwrites another.
\<close>

definition isArrayIndex :: "string \<Rightarrow> bool" where
  "isArrayIndex k =
     (list_all isDigit k
      \<and> (case k of [] \<Rightarrow> False | c # cs \<Rightarrow> (if c = CHR ''0'' then cs = [] else True))
      \<and> digitsValue k \<le> 4294967294)"

definition objectFromEntries :: "store \<Rightarrow> store" where
  "objectFromEntries es =
     sort_key (\<lambda>e. digitsValue (fst e)) (filter (\<lambda>e. isArrayIndex (fst e)) es)
     @ filter (\<lambda>e. \<not> isArrayIndex (fst e)) es"

text \<open>\<open>COMMANDS.clear()\<close> followed by \<open>COMMANDS.set(key, value)\<close> for each entry.\<close>

definition setAll :: "store \<Rightarrow> store \<Rightarrow> store" where
  "setAll entries m = foldl (\<lambda>acc e. mapSet (fst e) (snd e) acc) m entries"

definition saveCommands :: "state \<Rightarrow> state" where
  "saveCommands st =
     st\<lparr> localStorage :=
           (localStorage st)\<lparr> ls_commands := Some (Document (objectFromEntries (COMMANDS st))) \<rparr> \<rparr>"

subsection \<open>\<open>loadCommands\<close>\<close>

text \<open>The two checks of the loop body, in the source's order; the flag says whether the
  entry was amended.\<close>

definition fixEntry :: "string \<times> cmd \<Rightarrow> (string \<times> cmd) \<times> bool" where
  "fixEntry e =
     (let k = fst e; v = snd e;
          u1 = (k = ''d'' \<and> falsyTemplate (searchTemplate v));
          v1 = (if u1 then v\<lparr> searchTemplate := Some (Single ''/search/work?path=%2F&query={}'') \<rparr>
                else v);
          u2 = (k = ''gh'' \<and> falsyTemplate (searchTemplate v1));
          v2 = (if u2 then v1\<lparr> searchTemplate := Some (Single ''/search?q={}'') \<rparr> else v1)
      in ((k, v2), u1 \<or> u2))"

text \<open>The loop over \<open>Object.entries(commandsObj)\<close>: it amends the objects of the parsed
  document in place, sets each in \<open>COMMANDS\<close> and records whether any was amended.\<close>

fun loadLoop :: "store \<Rightarrow> store \<Rightarrow> bool \<Rightarrow> store \<times> store \<times> bool" where
  "loadLoop [] cmds updated = ([], cmds, updated)"
| "loadLoop (e # es) cmds updated =
     (case fixEntry e of
        (e', u) \<Rightarrow>
          (case loadLoop es (mapSet (fst e') (snd e') cmds) (updated \<or> u) of
             (doc', cmds', updated') \<Rightarrow> (e' # doc', cmds', updated')))"

definition loadCommands :: "state \<Rightarrow> state" where
  "loadCommands st =
     (case ls_commands (localStorage st) of
        None \<Rightarrow> st
      | Some (Malformed t) \<Rightarrow>
          if t = [] then st
          else st\<lparr> consoleErrors :=
                     consoleErrors st @ [''Failed to parse commands from localStorage''] \<rparr>
      | Some (Document doc) \<Rightarrow>
          (case loadLoop doc [] False of
             (doc', cmds, updated) \<Rightarrow>
               (let st1 = st\<lparr> COMMANDS := cmds \<rparr>
                in if updated
                   then st1\<lparr> localStorage :=
                               (localStorage st1)\<lparr> ls_commands := Some (Document doc') \<rparr> \<rparr>
                   else st1)))"

subsection \<open>Page load\<close>

text \<open>The literal \<open>COMMANDS\<close> map and the literal \<open>CONFIG\<close> object of the configuration
  script.\<close>

definition entry :: "string \<Rightarrow> string \<Rightarrow> string \<Rightarrow> template option \<Rightarrow> string list option
    \<Rightarrow> string \<times> cmd" where
  "entry k n u t s =
     (k, \<lparr> name = n, url = u, searchTemplate = t, suggestions = s, command = None, key = None \<rparr>)"

definition builtinCommands :: store where
  "builtinCommands =
     [ entry ''g'' ''Gmail'' ''https://mail.google.com/mail/u/0/#inbox'' None None,
       entry ''y'' ''YouTube'' ''https://youtube.com/'' (Some (Single ''/results?search_query={}''))
         (Some [''y/feed/subscriptions'']),
       entry ''m'' ''Metabase'' ''https://metabase.hyperiondev.com/dashboard/157-my-dashboard''
         None None,
       entry ''d'' ''Dropbox'' ''https://www.dropbox.com/work''
         (Some (Single ''/search/work?path=%2F&query={}'')) None,
       entry ''a'' ''Chat'' ''https://chat.openai.com/chat'' (Some (Single ''/?q={}'')) None,
       entry ''n'' ''Netflix'' ''https://www.netflix.com/browse'' None None,
       entry ''c'' ''Cogrammer'' ''https://hyperiondev.cogrammar.com/'' None
         (Some [''c/reviewer/completed/'', ''c/reviewer/returned_reviews/'']),
       entry ''l'' ''Localhost'' ''http://localhost:3000'' None None,
       entry ''gh'' ''GitHub'' ''https://github.com/'' (Some (Single ''/search?q={}'')) None,
       entry ''k'' ''Knowledge''
         ''https://sites.google.com/hyperiondev.com/hyperiondev-kb/home?authuser=0'' None None,
       entry ''r'' ''Reddit'' ''https://reddit.com'' None
         (Some [''r/r/webdev'', ''r/r/learnprogramming'', ''r/r/gamedev'', ''r/r/LifeProTips/'']),
       entry ''s'' ''Spotify'' ''https://open.spotify.com'' (Some (Single ''/search/{}'')) None ]"

definition configLiteral :: config where
  "configLiteral =
     \<lparr> commandPathDelimiter = ''/'', commandSearchDelimiter = '' '',
       searchEngineTemplates =
         [(''google'', ''https://www.google.com/search?q={}''),
          (''duckduckgo'', ''https://duckduckgo.com/?q={}'')],
       defaultSearchEngine = ''google'', openLinksInNewTab = True, suggestionLimit = 4,
       defaultSearchTemplate = Undefined \<rparr>"

text \<open>\<open>CONFIG.init\<close>: restores the tab behaviour and the search engine from storage and
  sets \<open>defaultSearchTemplate\<close>.\<close>

definition configInit :: "storage \<Rightarrow> config \<Rightarrow> config" where
  "configInit ls cfg =
     (let c1 = (case ls_tabBehavior ls of
                  None \<Rightarrow> cfg
                | Some tb \<Rightarrow> cfg\<lparr> openLinksInNewTab := (tb = ''new'') \<rparr>);
          c2 = (case ls_searchEngine ls of
                  None \<Rightarrow> c1
                | Some se \<Rightarrow>
                    if truthyProperty (lookupProperty (searchEngineTemplates c1) se)
                    then c1\<lparr> defaultSearchEngine := se \<rparr> else c1)
      in c2\<lparr> defaultSearchTemplate :=
               lookupProperty (searchEngineTemplates c2) (defaultSearchEngine c2) \<rparr>)"

text \<open>The theme script on load: \<open>applyThemePreference(saved || "system")\<close>, normalising a
  theme that is not one of the four valid ones to \<open>system\<close>. \<open>prefersLight\<close> is the answer
  of the media query.\<close>

definition resolveTheme :: "bool \<Rightarrow> string \<Rightarrow> string" where
  "resolveTheme prefersLight t =
     (if t = ''system'' then (if prefersLight then ''light'' else ''dark'') else t)"

definition orElse :: "string option \<Rightarrow> string \<Rightarrow> string" where
  "orElse v d = (if truthy v then the v else d)"

definition themeInit :: "bool \<Rightarrow> state \<Rightarrow> state" where
  "themeInit prefersLight st =
     (let saved = orElse (ls_selectedTheme (localStorage st)) ''system'';
          normalized = (if saved \<in> set [''system'', ''dark'', ''light'', ''void'']
                        then saved else ''system'')
      in st\<lparr> dataTheme := resolveTheme prefersLight normalized,
              localStorage := (localStorage st)\<lparr> ls_selectedTheme := Some normalized \<rparr> \<rparr>)"

definition pageLoad :: "bool \<Rightarrow> storage \<Rightarrow> state" where
  "pageLoad prefersLight ls =
     loadCommands (themeInit prefersLight
       \<lparr> COMMANDS = builtinCommands, CONFIG = configInit ls configLiteral,
         localStorage = ls, dataTheme = [], consoleErrors = [] \<rparr>)"

definition emptyStorage :: storage where
  "emptyStorage =
     \<lparr> ls_commands = None, ls_selectedTheme = None, ls_tabBehavior = None,
       ls_searchEngine = None \<rparr>"

subsection \<open>Creating and editing a shortcut\<close>

text \<open>Both handlers add \<open>https://\<close> to a URL that starts with neither \<open>http://\<close> nor
  \<open>https://\<close>.\<close>

definition withProtocol :: "string \<Rightarrow> string" where
  "withProtocol v =
     (if startsWith v ''http://'' then v
      else if startsWith v ''https://'' then v
      else ''https://'' @ v)"

text \<open>
  \<open>createNewShortcut\<close>, on the values of the three inputs. \<open>shouldOverride\<close> is the
  answer of the confirmation dialog, asked only when the key exists. The result is the
  returned flag and the state. The check of the fields is on the values as typed; the key
  and the name are stored as typed, the URL trimmed.
\<close>

definition createNewShortcut :: "string \<Rightarrow> string \<Rightarrow> string \<Rightarrow> bool \<Rightarrow> state \<Rightarrow> bool \<times> state" where
  "createNewShortcut keyInput nameInput valueInput shouldOverride st =
     (if keyInput = [] then (False, st)
      else if nameInput = [] then (False, st)
      else if valueInput = [] then (False, st)
      else if has (COMMANDS st) keyInput \<and> \<not> shouldOverride then (False, st)
      else (True,
            saveCommands
              (st\<lparr> COMMANDS :=
                    mapSet keyInput
                      \<lparr> name = nameInput, url = withProtocol (trim valueInput),
                        searchTemplate = None, suggestions = None, command = None,
                        key = None \<rparr>
                      (COMMANDS st) \<rparr>)))"

text \<open>
  \<open>saveEditedShortcut\<close> for the entry \<open>(key, value)\<close> the row was rendered from. The
  check is on the trimmed values.
\<close>

definition saveEditedShortcut ::
    "string \<Rightarrow> cmd \<Rightarrow> string \<Rightarrow> string \<Rightarrow> string \<Rightarrow> bool \<Rightarrow> state \<Rightarrow> bool \<times> state" where
  "saveEditedShortcut oldKey oldValue keyInput nameInput valueInput shouldOverride st =
     (let newKey = trim keyInput; newName = trim nameInput; newValue = trim valueInput
      in if newKey = [] then (False, st)
         else if newName = [] then (False, st)
         else if newValue = [] then (False, st)
         else if newKey \<noteq> oldKey \<and> has (COMMANDS st) newKey \<and> \<not> shouldOverride
         then (False, st)
         else (let cmds1 = (if newKey \<noteq> oldKey then mapDelete oldKey (COMMANDS st)
                            else COMMANDS st)
               in (True,
                   saveCommands
                     (st\<lparr> COMMANDS :=
                           mapSet newKey (oldValue\<lparr> name := newName, url := withProtocol newValue \<rparr>)
                             cmds1 \<rparr>))))"

subsection \<open>Export and import\<close>

text \<open>The object \<open>exportConfig\<close> serialises and \<open>handleImportFile\<close> parses; an absent
  property is \<open>None\<close>.\<close>

record settings =
  s_theme :: "string option"
  s_tabBehavior :: "string option"
  s_searchEngine :: "string option"
  s_commands :: "store option"

definition exportConfig :: "state \<Rightarrow> settings" where
  "exportConfig st =
     \<lparr> s_theme = Some (orElse (ls_selectedTheme (localStorage st)) ''dark''),
       s_tabBehavior = Some (orElse (ls_tabBehavior (localStorage st)) ''current''),
       s_searchEngine = Some (orElse (ls_searchEngine (localStorage st)) ''google''),
       s_commands = Some (objectFromEntries (COMMANDS st)) \<rparr>"

text \<open>A chosen file: \<open>Invalid\<close> is a text that \<open>JSON.parse\<close> rejects or that is not an
  object (the handler reports the error and changes nothing), \<open>Settings s\<close> is the text of
  the object \<open>s\<close>.\<close>

datatype importFile = Invalid | Settings settings

definition applyTheme :: "bool \<Rightarrow> string \<Rightarrow> state \<Rightarrow> state" where
  "applyTheme prefersLight preference st =
     (let normalized = (if preference = ''dark-abyss'' then ''void'' else preference)
      in st\<lparr> localStorage := (localStorage st)\<lparr> ls_selectedTheme := Some normalized \<rparr>,
              dataTheme := resolveTheme prefersLight normalized \<rparr>)"

definition importTheme :: "bool \<Rightarrow> settings \<Rightarrow> state \<Rightarrow> state" where
  "importTheme prefersLight s st =
     (if truthy (s_theme s)
      then applyTheme prefersLight
             (if the (s_theme s) \<in> set [''system'', ''dark'', ''light'', ''void'', ''dark-abyss'']
              then the (s_theme s) else ''system'') st
      else st)"

definition importTabBehavior :: "settings \<Rightarrow> state \<Rightarrow> state" where
  "importTabBehavior s st =
     (if truthy (s_tabBehavior s)
      then st\<lparr> localStorage := (localStorage st)\<lparr> ls_tabBehavior := s_tabBehavior s \<rparr>,
               CONFIG := (CONFIG st)\<lparr> openLinksInNewTab := (the (s_tabBehavior s) = ''new'') \<rparr> \<rparr>
      else st)"

definition importSearchEngine :: "settings \<Rightarrow> state \<Rightarrow> state" where
  "importSearchEngine s st =
     (if truthy (s_searchEngine s)
      then st\<lparr> localStorage := (localStorage st)\<lparr> ls_searchEngine := s_searchEngine s \<rparr>,
               CONFIG := (CONFIG st)
                 \<lparr> defaultSearchEngine := the (s_searchEngine s),
                   defaultSearchTemplate :=
                     lookupProperty (searchEngineTemplates (CONFIG st))
                       (the (s_searchEngine s)) \<rparr> \<rparr>
      else st)"

definition importCommands :: "settings \<Rightarrow> state \<Rightarrow> state" where
  "importCommands s st =
     (case s_commands s of
        None \<Rightarrow> st
      | Some doc \<Rightarrow> saveCommands (st\<lparr> COMMANDS := setAll doc [] \<rparr>))"

text \<open>\<open>handleImportFile\<close>: no file or a declined confirmation changes nothing.\<close>

definition handleImportFile :: "bool \<Rightarrow> importFile option \<Rightarrow> bool \<Rightarrow> state \<Rightarrow> state" where
  "handleImportFile prefersLight file confirmImport st =
     (case file of
        None \<Rightarrow> st
      | Some f \<Rightarrow>
          if \<not> confirmImport then st
          else (case f of
                  Invalid \<Rightarrow> st\<lparr> consoleErrors := consoleErrors st @ [''Import error:''] \<rparr>
                | Settings s \<Rightarrow>
                    importCommands s
                      (importSearchEngine s
                        (importTabBehavior s (importTheme prefersLight s st)))))"

text \<open>The state after the first load of the page: nothing is stored yet, and the media
  query does not ask for the light theme.\<close>

definition firstRun :: state where
  "firstRun = pageLoad False emptyStorage"

declare parseQuery.simps [code]

section \<open>Notions the properties are stated with\<close>

text \<open>
  The redirection an input takes in case 2 of \<open>parseQuery\<close>, if it takes one: the
  trimmed input is no URL, it is a key of the store, and the command under it has a truthy
  \<open>command\<close> property, on which \<open>parseQuery\<close> calls itself.
\<close>

definition redirectTarget :: "store \<Rightarrow> string \<Rightarrow> string option" where
  "redirectTarget cmds raw =
     (let query = trim raw
      in if isUrl query then None
         else (case get cmds query of
                 None \<Rightarrow> None
               | Some c \<Rightarrow> if truthy (command c) then command c else None))"

text \<open>\<open>chainEnds n cmds raw\<close>: following the redirections from \<open>raw\<close> reaches, within
  \<open>n\<close> steps, an input that redirects no further.\<close>

fun chainEnds :: "nat \<Rightarrow> store \<Rightarrow> string \<Rightarrow> bool" where
  "chainEnds 0 cmds raw = (redirectTarget cmds raw = None)"
| "chainEnds (Suc n) cmds raw =
     (case redirectTarget cmds raw of None \<Rightarrow> True | Some t \<Rightarrow> chainEnds n cmds t)"

text \<open>A scheme is present in a text that starts, in any letter case, with \<open>http://\<close> or
  \<open>https://\<close>, the two schemes the URL pattern admits.\<close>

definition schemePresent :: "string \<Rightarrow> bool" where
  "schemePresent s =
     (startsWith (toLowerCase s) ''http://'' \<or> startsWith (toLowerCase s) ''https://'')"

text \<open>The condition of case 3: the text before the first search delimiter is a key and the
  text after it is truthy.\<close>

definition searchCaseApplies :: "config \<Rightarrow> store \<Rightarrow> string \<Rightarrow> bool" where
  "searchCaseApplies cfg cmds query =
     (case literalDelimiter (commandSearchDelimiter cfg) of
        None \<Rightarrow> False
      | Some d \<Rightarrow> has cmds (fst (splitFirst d query)) \<and> truthy (snd (splitFirst d query)))"

text \<open>Stores for the examples: a command that redirects to its own key, an alias of the
  YouTube command, a key that holds the search delimiter and a key that holds the path
  delimiter.\<close>

definition selfRedirect :: store where
  "selfRedirect =
     [(''a'', \<lparr> name = ''A'', url = ''https://example.com'', searchTemplate = None,
               suggestions = None, command = Some ''a'', key = None \<rparr>)]"

definition aliasStore :: store where
  "aliasStore =
     [(''yt'', \<lparr> name = ''Alias'', url = [], searchTemplate = None, suggestions = None,
                command = Some ''y'', key = None \<rparr>),
      entry ''y'' ''YouTube'' ''https://youtube.com/'' (Some (Single ''/results?search_query={}''))
        None]"

definition spacedKey :: store where
  "spacedKey =
     [entry ''a b'' ''Example'' ''https://example.com/'' (Some (Single ''/s?q={}'')) None]"

definition slashedKey :: store where
  "slashedKey = [entry ''a/b'' ''Example'' ''https://example.com/'' None None]"

text \<open>A command whose URL lies outside \<open>parseHref\<close> (its path holds an \<open>@\<close>), with
  \<open>parseHref\<close> extended by what the browser reads from that URL.\<close>

definition channelStore :: store where
  "channelStore =
     [entry ''v'' ''Veritasium'' ''https://www.youtube.com/@veritasium''
        (Some (Single ''/results?search_query={}'')) None]"

definition channelParser :: hrefParser where
  "channelParser =
     parseHref(''https://www.youtube.com/@veritasium'' \<mapsto>
       \<lparr> protocol = ''https:'', hostname = ''www.youtube.com'', port = [],
         pathname = ''/@veritasium'', search = [] \<rparr>)"

text \<open>Two syntactic notions on patterns, for the proofs: a pattern that matches nothing,
  and a pattern all of whose character classes lie within a given class.\<close>

fun void :: "rexp \<Rightarrow> bool" where
  "void Zero = True"
| "void One = False"
| "void (Atom P) = False"
| "void (Alt r s) = (void r \<and> void s)"
| "void (Seq r s) = (void r \<or> void s)"
| "void (Star r) = False"

fun atomsWithin :: "(char \<Rightarrow> bool) \<Rightarrow> rexp \<Rightarrow> bool" where
  "atomsWithin Q Zero = True"
| "atomsWithin Q One = True"
| "atomsWithin Q (Atom P) = (\<forall>c. P c \<longrightarrow> Q c)"
| "atomsWithin Q (Alt r s) = (atomsWithin Q r \<and> atomsWithin Q s)"
| "atomsWithin Q (Seq r s) = (atomsWithin Q r \<and> atomsWithin Q s)"
| "atomsWithin Q (Star r) = atomsWithin Q r"

section \<open>Properties of the suggestion filter\<close>

lemma autocompleteCallback_drops_exact:
  "toLowerCase s \<notin> set (autocompleteCallback s res)"
  by (induction res) auto

lemma autocompleteCallback_keeps:
  "phrase \<in> set res \<Longrightarrow> phrase \<noteq> toLowerCase s \<Longrightarrow> phrase \<in> set (autocompleteCallback s res)"
  by (induction res) auto

text \<open>
  Claim C9: every item of the autocomplete answer that is identical to the search text
  under case-insensitive comparison is excluded from the suggestions. The callback
  lower-cases the search text only, so it excludes the phrase that equals the lower-cased
  search text (\<open>autocompleteCallback_drops_exact\<close>) and keeps a phrase that differs from
  it in case: for the search text \<open>cats\<close>, the phrase \<open>Cats\<close> is identical to it under
  case-insensitive comparison, stays in the suggestions and is rendered.
\<close>

theorem autocompleteCallback_keeps_other_case:
  "sameIgnoringCase ''Cats'' ''cats''
   \<and> autocompleteCallback ''cats'' [''Cats'', ''cats'', ''cats and dogs'']
       = [''Cats'', ''cats and dogs'']
   \<and> onInput parseHref (CONFIG firstRun) builtinCommands [''Cats'', ''cats'', ''cats and dogs''] ''cats''
       = Some (Inr [''Cats'', ''cats and dogs''])"
  by code_simp

section \<open>Properties of the resolver\<close>

text \<open>
  Claim C4: the origin onto which a path is appended keeps the port of the command's URL,
  so that a path command over \<open>http://localhost:3000\<close> yields
  \<open>http://localhost:3000/<remainder>\<close>. \<open>splitUrl\<close> builds the origin from the protocol
  and the \<open>hostname\<close> of the anchor, which leaves the port out: with the built-in
  commands, \<open>l/api\<close> resolves to \<open>http://localhost/api\<close>.
\<close>

theorem path_command_drops_port:
  "get builtinCommands ''l'' = Some (snd (entry ''l'' ''Localhost'' ''http://localhost:3000'' None None))
   \<and> splitUrl parseHref ''http://localhost:3000'' = Some (''http://localhost'', ''/'')
   \<and> parseQuery parseHref (CONFIG firstRun) builtinCommands ''l/api'' =
       Some (Inr \<lparr> r_key = Some ''l'', r_query = ''l/api'', r_search = None,
                   r_splitBy = Some ''/'', r_path = Some ''api'',
                   r_url = Url ''http://localhost/api'', r_searchTemplate = None \<rparr>)"
  by code_simp

subsection \<open>The URL pattern admits no white space\<close>

lemma void_not_nullable: "void r \<Longrightarrow> \<not> nullable r"
  by (induction r) auto

lemma void_deriv: "void r \<Longrightarrow> void (deriv c r)"
  by (induction r) (auto simp: void_not_nullable)

lemma void_no_match: "void r \<Longrightarrow> \<not> matches r s"
  by (induction s arbitrary: r) (auto simp: void_not_nullable void_deriv)

lemma atomsWithin_deriv: "atomsWithin Q r \<Longrightarrow> atomsWithin Q (deriv c r)"
  by (induction r) auto

lemma deriv_outside_void: "atomsWithin Q r \<Longrightarrow> \<not> Q c \<Longrightarrow> void (deriv c r)"
  by (induction r) auto

lemma matches_within: "atomsWithin Q r \<Longrightarrow> matches r s \<Longrightarrow> list_all Q s"
proof (induction s arbitrary: r)
  case Nil
  then show ?case by simp
next
  case (Cons c cs)
  have "Q c"
  proof (rule ccontr)
    assume "\<not> Q c"
    then have "void (deriv c r)"
      using Cons.prems(1) by (rule deriv_outside_void [rotated])
    then show False
      using Cons.prems(2) by (simp add: void_no_match)
  qed
  moreover have "list_all Q cs"
    using Cons.IH [of "deriv c r"] Cons.prems by (simp add: atomsWithin_deriv)
  ultimately show ?case by simp
qed

lemma word_nonspace: "isWordOrHyphen c \<Longrightarrow> isNonSpace c"
  by (auto simp: isWordOrHyphen_def isWord_def isLetter_def isUpper_def isLower_def
      isDigit_def isNonSpace_def isWhiteSpace_def)

lemma digit_nonspace: "isDigit c \<Longrightarrow> isNonSpace c"
  by (auto simp: isDigit_def isNonSpace_def isWhiteSpace_def)

lemma urlRe_atoms: "atomsWithin isNonSpace urlRe"
  apply (simp add: urlRe_def schemeRe_def labelRe_def Opt_def Plus1_def Chr_def ChrI_def
      word_nonspace digit_nonspace)
  apply (simp add: isNonSpace_def isWhiteSpace_def code_def)
  done

lemma isUrl_nonspace: "isUrl s \<Longrightarrow> list_all isNonSpace s"
  unfolding isUrl_def by (rule matches_within [OF urlRe_atoms])

subsection \<open>Matching, by the shape of the pattern\<close>

lemma matches_Zero [simp]: "\<not> matches Zero w"
  by (induction w) auto

lemma matches_One [simp]: "matches One w = (w = [])"
  by (cases w) auto

lemma matches_Atom [simp]: "matches (Atom P) w = (\<exists>c. w = [c] \<and> P c)"
  by (cases w) auto

lemma matches_Alt [simp]: "matches (Alt r s) w = (matches r w \<or> matches s w)"
  by (induction w arbitrary: r s) auto

lemma matches_Seq_Cons:
  "(\<exists>u v. c # w = u @ v \<and> matches r u \<and> matches s v) =
   ((nullable r \<and> matches s (c # w)) \<or> (\<exists>u v. w = u @ v \<and> matches (deriv c r) u \<and> matches s v))"
proof
  assume "\<exists>u v. c # w = u @ v \<and> matches r u \<and> matches s v"
  then obtain u v where uv: "c # w = u @ v" "matches r u" "matches s v" by blast
  show "(nullable r \<and> matches s (c # w)) \<or> (\<exists>u v. w = u @ v \<and> matches (deriv c r) u \<and> matches s v)"
  proof (cases u)
    case Nil
    then show ?thesis using uv by simp
  next
    case (Cons a u')
    then have "w = u' @ v" "matches (deriv c r) u'" using uv by auto
    then show ?thesis using uv(3) by blast
  qed
next
  assume "(nullable r \<and> matches s (c # w)) \<or> (\<exists>u v. w = u @ v \<and> matches (deriv c r) u \<and> matches s v)"
  then show "\<exists>u v. c # w = u @ v \<and> matches r u \<and> matches s v"
  proof
    assume "nullable r \<and> matches s (c # w)"
    then have "c # w = [] @ (c # w) \<and> matches r [] \<and> matches s (c # w)" by simp
    then show ?thesis by blast
  next
    assume "\<exists>u v. w = u @ v \<and> matches (deriv c r) u \<and> matches s v"
    then obtain u v where "w = u @ v" "matches (deriv c r) u" "matches s v" by blast
    then have "c # w = (c # u) @ v \<and> matches r (c # u) \<and> matches s v" by simp
    then show ?thesis by blast
  qed
qed

lemma matches_Seq: "matches (Seq r s) w = (\<exists>u v. w = u @ v \<and> matches r u \<and> matches s v)"
proof (induction w arbitrary: r)
  case Nil
  then show ?case by simp
next
  case (Cons c w)
  show ?case
    unfolding matches_Seq_Cons using Cons.IH by auto
qed

lemma matches_Seq_Atom:
  "matches (Seq (Atom P) r) w = (\<exists>c v. w = c # v \<and> P c \<and> matches r v)"
proof (cases w)
  case Nil
  then show ?thesis by simp
next
  case (Cons c v)
  have "matches (Seq (Atom P) r) (c # v) = matches (Seq (if P c then One else Zero) r) v"
    by simp
  also have "\<dots> = (P c \<and> matches r v)"
    by (simp add: matches_Seq del: matches.simps)
  finally show ?thesis using Cons by simp
qed

lemma matches_Star_Atom: "matches (Star (Atom P)) w = list_all P w"
proof (induction w)
  case Nil
  then show ?case by simp
next
  case (Cons c w)
  have "matches (Star (Atom P)) (c # w) = matches (Seq (if P c then One else Zero) (Star (Atom P))) w"
    by simp
  also have "\<dots> = (P c \<and> matches (Star (Atom P)) w)"
    by (simp add: matches_Seq del: matches.simps)
  finally show ?case using Cons.IH by simp
qed

lemma matches_Plus1_Atom: "matches (Plus1 (Atom P)) w = (w \<noteq> [] \<and> list_all P w)"
  unfolding Plus1_def matches_Seq_Atom matches_Star_Atom
  by (cases w) auto

lemma matches_Chr: "matches (Chr a) w = (w = [a])"
  unfolding Chr_def matches_Atom by auto

lemma matches_ChrI: "matches (ChrI a b) w = (w = [a] \<or> w = [b])"
  unfolding ChrI_def matches_Atom by auto

lemma matches_Seq_Chr: "matches (Seq (Chr a) r) w = (\<exists>v. w = a # v \<and> matches r v)"
  unfolding Chr_def matches_Seq_Atom by auto

lemma matches_Seq_ChrI:
  "matches (Seq (ChrI a b) r) w = (\<exists>v. (w = a # v \<or> w = b # v) \<and> matches r v)"
  unfolding ChrI_def matches_Seq_Atom by auto

lemma matches_Opt: "matches (Opt r) w = (w = [] \<or> matches r w)"
  unfolding Opt_def matches_Alt matches_One ..

lemma hasProtocol_iff:
  "hasProtocol q = (\<exists>ls r. q = ls @ ''://'' @ r \<and> ls \<noteq> [] \<and> list_all isLetter ls)"
proof -
  have any: "matches (Star (Atom (\<lambda>c. True))) r" for r
    unfolding matches_Star_Atom by (simp add: list_all_iff)
  have tail: "matches (Seq (Chr CHR '':'') (Seq (Chr CHR ''/'') (Seq (Chr CHR ''/'') (Star (Atom (\<lambda>c. True)))))) v
      = (\<exists>r. v = ''://'' @ r)" for v
    unfolding matches_Seq_Chr using any by auto
  show ?thesis
    unfolding hasProtocol_def protocolRe_def matches_Seq [of "Plus1 (Atom isLetter)"]
      matches_Plus1_Atom tail
    by blast
qed

lemma code_toLowerChar:
  "code (toLowerChar c) =
     (if isUpper c \<or> (192 \<le> code c \<and> code c \<le> 222 \<and> code c \<noteq> 215) then code c + 32 else code c)"
  by (auto simp: toLowerChar_def code_def isUpper_def)

lemma lower_letter:
  assumes "toLowerChar c = x" and "isLower x"
  shows "isLetter c"
proof -
  have "code (toLowerChar c) = code x" using assms(1) by simp
  then show ?thesis
    using assms(2) by (auto simp: code_toLowerChar isLetter_def isLower_def isUpper_def split: if_splits)
qed

lemma lower_other:
  assumes "toLowerChar c = x" and "code x < 65"
  shows "c = x"
proof -
  have "code (toLowerChar c) = code x" using assms(1) by simp
  then have "code c = code x"
    using assms(2) by (auto simp: code_toLowerChar isUpper_def split: if_splits)
  then show ?thesis by (simp add: code_def)
qed

lemma startsWith_iff: "startsWith s p = (\<exists>r. s = p @ r)"
  by (induction s p rule: startsWith.induct) auto

lemma takeWhile_stop:
  "list_all P xs \<Longrightarrow> \<not> P y \<Longrightarrow> dropWhile P (xs @ y # ys) = y # ys"
  by (induction xs) auto

lemma first_outside_unique:
  assumes eq: "xs @ y # ys = xs' @ y' # ys'"
    and "list_all P xs" "\<not> P y" "list_all P xs'" "\<not> P y'"
  shows "y = y'"
proof -
  have "dropWhile P (xs @ y # ys) = y # ys"
    using assms(2,3) by (rule takeWhile_stop)
  moreover have "dropWhile P (xs' @ y' # ys') = y' # ys'"
    using assms(4,5) by (rule takeWhile_stop)
  ultimately have "y # ys = y' # ys'"
    using eq by metis
  then show ?thesis by simp
qed

lemma letter_word: "isLetter c \<Longrightarrow> isWordOrHyphen c"
  by (simp add: isWordOrHyphen_def isWord_def)

lemma lower_prefix_letters:
  "toLowerCase q = p @ r \<Longrightarrow> list_all isLower p \<Longrightarrow>
     \<exists>u v. q = u @ v \<and> length u = length p \<and> list_all isLetter u \<and> toLowerCase v = r"
proof (induction p arbitrary: q)
  case Nil
  then have "q = [] @ q \<and> length ([]::string) = length ([]::string) \<and> list_all isLetter [] \<and> toLowerCase q = r"
    by simp
  then show ?case by blast
next
  case (Cons a p)
  from Cons.prems(1) obtain c q' where q: "q = c # q'" "toLowerChar c = a" "toLowerCase q' = p @ r"
    by (auto simp: toLowerCase_def map_eq_Cons_conv)
  have "isLetter c" using q(2) Cons.prems(2) by (auto intro: lower_letter)
  moreover obtain u v where "q' = u @ v" "length u = length p" "list_all isLetter u" "toLowerCase v = r"
    using Cons.IH [OF q(3)] Cons.prems(2) by auto
  ultimately have "q = (c # u) @ v \<and> length (c # u) = length (a # p) \<and> list_all isLetter (c # u) \<and> toLowerCase v = r"
    using q(1) by simp
  then show ?case by blast
qed

lemma lower_prefix_other:
  "toLowerCase q = p @ r \<Longrightarrow> list_all (\<lambda>x. code x < 65) p \<Longrightarrow> \<exists>v. q = p @ v \<and> toLowerCase v = r"
proof (induction p arbitrary: q)
  case Nil
  then show ?case by simp
next
  case (Cons a p)
  from Cons.prems(1) obtain c q' where q: "q = c # q'" "toLowerChar c = a" "toLowerCase q' = p @ r"
    by (auto simp: toLowerCase_def map_eq_Cons_conv)
  have "c = a" using q(2) Cons.prems(2) by (auto intro: lower_other)
  moreover obtain v where "q' = p @ v" "toLowerCase v = r"
    using Cons.IH [OF q(3)] Cons.prems(2) by auto
  ultimately show ?case using q(1) by simp
qed

lemma lower_scheme:
  assumes "toLowerCase q = p @ ''://'' @ r" and "list_all isLower p" and "p \<noteq> []"
  shows "hasProtocol q"
proof -
  obtain u v where u: "q = u @ v" "length u = length p" "list_all isLetter u"
    "toLowerCase v = ''://'' @ r"
    using lower_prefix_letters [OF assms(1,2)] by blast
  have "list_all (\<lambda>x. code x < 65) ''://''"
    by (simp add: code_def)
  then obtain v' where "v = ''://'' @ v'"
    using lower_prefix_other [OF u(4)] by blast
  moreover have "u \<noteq> []" using u(2) assms(3) by auto
  ultimately show ?thesis
    unfolding hasProtocol_iff using u(1,3) by blast
qed

lemma schemePresent_hasProtocol:
  assumes "schemePresent q"
  shows "hasProtocol q"
proof -
  from assms consider r where "toLowerCase q = ''http'' @ ''://'' @ r"
    | r where "toLowerCase q = ''https'' @ ''://'' @ r"
    unfolding schemePresent_def startsWith_iff by auto
  then show ?thesis
  proof cases
    case 1
    moreover have "list_all isLower ''http''" by (simp add: isLower_def code_def)
    ultimately show ?thesis by (rule lower_scheme) simp
  next
    case 2
    moreover have "list_all isLower ''https''" by (simp add: isLower_def code_def)
    ultimately show ?thesis by (rule lower_scheme) simp
  qed
qed

lemma lower_facts:
  "toLowerChar CHR ''h'' = CHR ''h''" "toLowerChar CHR ''H'' = CHR ''h''"
  "toLowerChar CHR ''t'' = CHR ''t''" "toLowerChar CHR ''T'' = CHR ''t''"
  "toLowerChar CHR ''p'' = CHR ''p''" "toLowerChar CHR ''P'' = CHR ''p''"
  "toLowerChar CHR ''s'' = CHR ''s''" "toLowerChar CHR ''S'' = CHR ''s''"
  "toLowerChar CHR '':'' = CHR '':''" "toLowerChar CHR ''/'' = CHR ''/''"
  by code_simp+

lemma schemeRe_shape:
  assumes "matches schemeRe u"
  shows "\<exists>h t t' p. (u = [h, t, t', p] @ ''://'' \<or> u = [h, t, t', p, CHR ''s''] @ ''://''
            \<or> u = [h, t, t', p, CHR ''S''] @ ''://'')
          \<and> (h = CHR ''h'' \<or> h = CHR ''H'') \<and> (t = CHR ''t'' \<or> t = CHR ''T'')
          \<and> (t' = CHR ''t'' \<or> t' = CHR ''T'') \<and> (p = CHR ''p'' \<or> p = CHR ''P'')"
  using assms
  unfolding schemeRe_def matches_Seq_ChrI matches_Seq [of "Opt (ChrI CHR ''s'' CHR ''S'')"]
    matches_Opt matches_ChrI matches_Seq_Chr matches_Chr
  by (elim exE conjE disjE) simp_all

lemma schemeRe_present:
  assumes "matches schemeRe u"
  shows "schemePresent (u @ v)"
proof -
  from schemeRe_shape [OF assms] obtain h t t' p where
    u: "u = [h, t, t', p] @ ''://'' \<or> u = [h, t, t', p, CHR ''s''] @ ''://''
            \<or> u = [h, t, t', p, CHR ''S''] @ ''://''"
    and l: "h = CHR ''h'' \<or> h = CHR ''H''" "t = CHR ''t'' \<or> t = CHR ''T''"
      "t' = CHR ''t'' \<or> t' = CHR ''T''" "p = CHR ''p'' \<or> p = CHR ''P''"
    by blast
  have lo: "toLowerChar h = CHR ''h''" "toLowerChar t = CHR ''t''" "toLowerChar t' = CHR ''t''"
    "toLowerChar p = CHR ''p''"
    using l by (auto simp: lower_facts)
  show ?thesis
    using u lo by (auto simp: schemePresent_def toLowerCase_def lower_facts)
qed

lemma isUrl_shape:
  assumes "isUrl q"
  shows "schemePresent q \<or> (\<exists>lab rest. q = lab @ CHR ''.'' # rest \<and> list_all isWordOrHyphen lab)"
proof -
  define D where "D = Seq (Chr CHR ''.'') labelRe"
  define R where "R = Seq (Opt (Chr CHR ''.''))
             (Seq (Opt (Seq (Chr CHR '':'') (Plus1 (Atom isDigit))))
               (Opt (Seq (Chr CHR ''/'') (Star (Atom isNonSpace)))))"
  have re: "urlRe = Seq (Opt schemeRe) (Seq labelRe (Seq (Seq D (Star D)) R))"
    by (simp add: urlRe_def D_def R_def Plus1_def)
  from assms have "matches (Seq (Opt schemeRe) (Seq labelRe (Seq (Seq D (Star D)) R))) q"
    by (simp only: isUrl_def re)
  then obtain u v where q: "q = u @ v" and u: "matches (Opt schemeRe) u"
    and v: "matches (Seq labelRe (Seq (Seq D (Star D)) R)) v"
    unfolding matches_Seq [of "Opt schemeRe"] by blast
  from v obtain lab w where v2: "v = lab @ w" and lab: "matches labelRe lab"
    and w: "matches (Seq (Seq D (Star D)) R) w"
    unfolding matches_Seq [of labelRe] by blast
  from w obtain x y where w2: "w = x @ y" and x: "matches (Seq D (Star D)) x"
    unfolding matches_Seq [of "Seq D (Star D)"] by blast
  from x obtain x1 x2 where x2: "x = x1 @ x2" and x1: "matches D x1"
    unfolding matches_Seq [of D] by blast
  from x1 obtain x' where x': "x1 = CHR ''.'' # x'"
    unfolding D_def matches_Seq_Chr by blast
  show ?thesis
  proof (cases "u = []")
    case True
    have "list_all isWordOrHyphen lab"
      using lab unfolding labelRe_def matches_Plus1_Atom by blast
    moreover have "q = lab @ CHR ''.'' # (x' @ x2 @ y)"
      using q v2 w2 x2 x' True by simp
    ultimately show ?thesis by blast
  next
    case False
    then have "matches schemeRe u"
      using u unfolding matches_Opt by blast
    then show ?thesis
      unfolding q by (rule disjI1 [OF schemeRe_present])
  qed
qed

lemma isUrl_hasProtocol_schemePresent:
  assumes "isUrl q" "hasProtocol q"
  shows "schemePresent q"
proof (rule ccontr)
  assume n: "\<not> schemePresent q"
  then obtain lab rest where 1: "q = lab @ CHR ''.'' # rest" "list_all isWordOrHyphen lab"
    using isUrl_shape [OF assms(1)] by blast
  obtain ls r where 2: "q = ls @ CHR '':'' # ''//'' @ r" "list_all isLetter ls"
    using assms(2) unfolding hasProtocol_iff by auto
  have 3: "list_all isWordOrHyphen ls"
    using 2(2) by (auto simp: list_all_iff letter_word)
  have 4: "\<not> isWordOrHyphen CHR ''.''" "\<not> isWordOrHyphen CHR '':''"
    by code_simp+
  have "CHR ''.'' = CHR '':''"
    using first_outside_unique [of lab "CHR ''.''" rest ls "CHR '':''" "''//'' @ r" isWordOrHyphen]
      1 2 3 4 by simp
  then show False by simp
qed

lemma isUrl_hasProtocol_iff: "isUrl q \<Longrightarrow> hasProtocol q = schemePresent q"
  using isUrl_hasProtocol_schemePresent schemePresent_hasProtocol by blast

subsection \<open>Direct URLs\<close>

text \<open>
  Claim C1: when the trimmed input matches the URL pattern, \<open>parseQuery\<close> returns it as
  the destination, whatever the store, the configuration and the anchor element: unchanged
  when a scheme is present, prefixed with \<open>https://\<close> when none is. No other case is
  consulted.
  (On an input that matches the URL pattern, the test \<open>hasProtocol\<close> of the code holds
  exactly when a scheme is present: \<open>isUrl_hasProtocol_iff\<close>.)
\<close>

theorem parseQuery_direct_url:
  assumes "isUrl (trim raw)"
  shows "parseQuery parser cfg cmds raw =
           Some (Inr \<lparr> r_key = None, r_query = trim raw, r_search = None, r_splitBy = None,
                       r_path = None,
                       r_url = Url (if schemePresent (trim raw) then trim raw
                                    else ''https://'' @ trim raw),
                       r_searchTemplate = None \<rparr>)"
  using assms isUrl_hasProtocol_iff [OF assms]
  by (subst parseQuery.simps) (simp add: Let_def)

theorem parseQuery_direct_url_witness:
  "isUrl (trim '' example.com '')
   \<and> parseQuery parseHref (CONFIG firstRun) builtinCommands '' example.com '' =
       Some (Inr \<lparr> r_key = None, r_query = ''example.com'', r_search = None,
                   r_splitBy = None, r_path = None, r_url = Url ''https://example.com'',
                   r_searchTemplate = None \<rparr>)
   \<and> isUrl (trim ''https://example.com/x'')
   \<and> parseQuery parseHref (CONFIG firstRun) builtinCommands ''https://example.com/x'' =
       Some (Inr \<lparr> r_key = None, r_query = ''https://example.com/x'', r_search = None,
                   r_splitBy = None, r_path = None, r_url = Url ''https://example.com/x'',
                   r_searchTemplate = None \<rparr>)"
proof -
  have u: "isUrl (trim '' example.com '')" "isUrl (trim ''https://example.com/x'')"
    by code_simp+
  have t: "trim '' example.com '' = ''example.com''"
    "trim ''https://example.com/x'' = ''https://example.com/x''"
    by code_simp+
  have p: "\<not> schemePresent ''example.com''" "schemePresent ''https://example.com/x''"
    by code_simp+
  show ?thesis
    using parseQuery_direct_url [OF u(1), of parseHref "CONFIG firstRun" builtinCommands]
      parseQuery_direct_url [OF u(2), of parseHref "CONFIG firstRun" builtinCommands] u
    by (simp add: t p)
qed

subsection \<open>Redirections\<close>

lemma parseQuery_redirect:
  "redirectTarget cmds raw = Some t \<Longrightarrow> parseQuery parser cfg cmds raw = parseQuery parser cfg cmds t"
  by (subst parseQuery.simps)
    (auto simp: redirectTarget_def Let_def split: option.splits if_splits)

lemma parseQuery_no_redirect:
  "redirectTarget cmds raw = None \<Longrightarrow> \<exists>r. parseQuery parser cfg cmds raw = Some r"
  by (subst parseQuery.simps)
    (auto simp: redirectTarget_def Let_def split: option.splits if_splits)

lemma chainEnds_returns: "chainEnds n cmds raw \<Longrightarrow> \<exists>r. parseQuery parser cfg cmds raw = Some r"
proof (induction n arbitrary: raw)
  case 0
  then show ?case by (simp add: parseQuery_no_redirect)
next
  case (Suc n)
  show ?case
  proof (cases "redirectTarget cmds raw")
    case None
    then show ?thesis by (rule parseQuery_no_redirect)
  next
    case (Some t)
    with Suc.prems have "chainEnds n cmds t" by simp
    then have "\<exists>r. parseQuery parser cfg cmds t = Some r" by (rule Suc.IH)
    then show ?thesis by (simp add: parseQuery_redirect [OF Some])
  qed
qed

text \<open>A call that returns has followed a chain that ends: by induction over the
  approximations of the recursive function.\<close>

lemma returns_chainEnds:
  assumes "parseQuery parser cfg cmds raw = Some y"
  shows "\<exists>n. chainEnds n cmds raw"
proof (rule parseQuery.raw_induct
    [where P = "\<lambda>parser cfg cmds raw y. \<exists>n. chainEnds n cmds raw", OF _ assms])
  fix f :: "hrefParser \<Rightarrow> config \<Rightarrow> store \<Rightarrow> string \<Rightarrow> (error + parsed) option"
  fix parser cfg cmds raw y
  assume IH: "\<And>parser cfg cmds raw y. f parser cfg cmds raw = Some y \<Longrightarrow> \<exists>n. chainEnds n cmds raw"
  assume body:
    "(let query = trim raw
      in if isUrl query then
           Some (Inr \<lparr> r_key = None, r_query = query, r_search = None, r_splitBy = None,
                       r_path = None,
                       r_url = Url (if hasProtocol query then query else ''https://'' @ query),
                       r_searchTemplate = None \<rparr>)
         else
           (case get cmds query of
              None \<Rightarrow> Some (searchCommand parser cfg cmds query)
            | Some c \<Rightarrow>
                if truthy (command c) then f parser cfg cmds (the (command c))
                else Some (Inr \<lparr> r_key = key c, r_query = query, r_search = None,
                                  r_splitBy = None, r_path = None, r_url = Url (url c),
                                  r_searchTemplate = None \<rparr>))) = Some y"
  show "\<exists>n. chainEnds n cmds raw"
  proof (cases "redirectTarget cmds raw")
    case None
    then have "chainEnds 0 cmds raw" by simp
    then show ?thesis ..
  next
    case (Some t)
    then have "f parser cfg cmds t = Some y"
      using body by (auto simp: redirectTarget_def Let_def split: option.splits if_splits)
    then obtain n where "chainEnds n cmds t"
      using IH by blast
    then have "chainEnds (Suc n) cmds raw"
      using Some by simp
    then show ?thesis ..
  qed
qed

lemma selfRedirect_target: "redirectTarget selfRedirect ''a'' = Some ''a''"
  by code_simp

lemma selfRedirect_never_ends: "\<not> chainEnds n selfRedirect ''a''"
  by (induction n) (simp_all add: selfRedirect_target)

text \<open>
  Claim C5, as stated: resolving an input whose command carries a redirection returns
  for every store, also when the redirections form a cycle. With a command \<open>a\<close> that
  redirects to \<open>a\<close>, the call on \<open>a\<close> never returns.
\<close>

theorem parseQuery_cycle_never_returns:
  "get selfRedirect ''a'' = Some (snd (hd selfRedirect))
   \<and> command (snd (hd selfRedirect)) = Some ''a''
   \<and> parseQuery parseHref (CONFIG firstRun) selfRedirect ''a'' = None"
proof -
  have "parseQuery parseHref (CONFIG firstRun) selfRedirect ''a'' = None"
  proof (cases "parseQuery parseHref (CONFIG firstRun) selfRedirect ''a''")
    case None
    then show ?thesis .
  next
    case (Some y)
    then have "\<exists>n. chainEnds n selfRedirect ''a''"
      by (rule returns_chainEnds)
    then show ?thesis
      by (simp add: selfRedirect_never_ends)
  qed
  moreover have "get selfRedirect ''a'' = Some (snd (hd selfRedirect))"
    by code_simp
  moreover have "command (snd (hd selfRedirect)) = Some ''a''"
    by code_simp
  ultimately show ?thesis by simp
qed

text \<open>
  Claim C5, amended: \<open>parseQuery\<close> returns exactly when the chain of redirections that
  starts at the input ends after finitely many steps; every such chain gives a result, and
  a chain that never ends (a cycle) gives none.
\<close>

theorem parseQuery_returns_iff_chain_ends:
  "(\<exists>r. parseQuery parser cfg cmds raw = Some r) = (\<exists>n. chainEnds n cmds raw)"
  using chainEnds_returns returns_chainEnds by blast

theorem parseQuery_returns_iff_chain_ends_witness:
  "chainEnds 1 aliasStore ''yt'' \<and> redirectTarget aliasStore ''yt'' = Some ''y''
   \<and> (\<exists>r. parseQuery parseHref (CONFIG firstRun) aliasStore ''yt'' = Some r)"
proof -
  have c: "chainEnds 1 aliasStore ''yt''"
    by code_simp
  have t: "redirectTarget aliasStore ''yt'' = Some ''y''"
    by code_simp
  have "\<exists>n. chainEnds n aliasStore ''yt''"
    using c by blast
  then have "\<exists>r. parseQuery parseHref (CONFIG firstRun) aliasStore ''yt'' = Some r"
    by (simp add: parseQuery_returns_iff_chain_ends)
  then show ?thesis
    using c t by simp
qed

subsection \<open>Search commands and path commands\<close>

lemma splitFirst_form:
  assumes "d \<notin> set k"
  shows "splitFirst d (k @ d # rest) = (k, Some (takeWhile (\<lambda>c. \<not> isLineTerminator c) rest))"
proof -
  have "dropWhile (\<lambda>c. c \<noteq> d) (k @ d # rest) = d # rest"
    using assms by (induction k) auto
  moreover have "takeWhile (\<lambda>c. c \<noteq> d) (k @ d # rest) = k"
    using assms by (induction k) auto
  ultimately show ?thesis
    by (simp add: splitFirst_def)
qed

lemma takeWhile_all: "list_all P xs \<Longrightarrow> takeWhile P xs = xs"
  by (induction xs) auto

lemma space_literal: "literalDelimiter '' '' = Some CHR '' ''"
  by code_simp

lemma slash_literal: "literalDelimiter ''/'' = Some CHR ''/''"
  by code_simp

lemma searchCommand_falls:
  assumes "literalDelimiter (commandSearchDelimiter cfg) = Some d"
    and "\<not> searchCaseApplies cfg cmds query"
  shows "searchCommand parser cfg cmds query = pathCommand parser cfg cmds query"
  using assms
  by (auto simp: searchCommand_def searchCaseApplies_def has_def get_def
      split: prod.splits option.splits)

text \<open>
  Claim C2, as stated: for every input \<open>key + delimiter + remainder\<close> with a known key
  that has a search template, the URL is the origin of the command's URL followed by the
  template filled with the encoded remainder. The split is at the first delimiter: with a
  key \<open>a b\<close> that holds the delimiter, the input \<open>a b c\<close> is split into \<open>a\<close> and
  \<open>b c\<close>, no case matches, and the result is the default search.
\<close>

theorem search_command_key_with_space:
  "get spacedKey ''a b''
     = Some (snd (entry ''a b'' ''Example'' ''https://example.com/'' (Some (Single ''/s?q={}'')) None))
   \<and> ''a b c'' = ''a b'' @ commandSearchDelimiter (CONFIG firstRun) @ ''c''
   \<and> parseQuery parseHref (CONFIG firstRun) spacedKey ''a b c'' =
       Some (Inr \<lparr> r_key = None, r_query = ''a b c'', r_search = Some ''a b c'',
                   r_splitBy = None, r_path = None,
                   r_url = Url ''https://www.google.com/search?q=a%20b%20c'',
                   r_searchTemplate = None \<rparr>)
   \<and> ''https://www.google.com/search?q=a%20b%20c''
       \<noteq> ''https://example.com'' @ replaceBraces ''/s?q={}'' (encodeURIComponent (trim ''c''))"
  by code_simp

text \<open>
  Claim C2, amended: with the space as search delimiter, let the trimmed input be
  \<open>key + space + remainder\<close>, where the key holds no space and is a known shortcut with a
  non-empty search template (one string), the remainder is not empty and holds no line
  terminator, and the trimmed input is not itself a key of the store. Let the anchor
  element read the protocol \<open>P\<close>, the hostname \<open>H\<close> and an empty port from the command's
  URL. Then the result is the search command of that key: its URL is the origin
  \<open>P//H\<close> followed by the template in which every \<open>{}\<close> is replaced by the
  percent-encoded trimmed remainder. This holds for every anchor element, that is, for
  every command URL, whatever its form.
\<close>

theorem search_command_url:
  assumes delim: "commandSearchDelimiter cfg = '' ''"
    and form: "trim raw = k @ '' '' @ rem"
    and nospace: "CHR '' '' \<notin> set k"
    and rem: "rem \<noteq> []" "list_all (\<lambda>c. \<not> isLineTerminator c) rem"
    and nokey: "get cmds (trim raw) = None"
    and known: "get cmds k = Some c"
    and tmpl: "searchTemplate c = Some (Single t)" "t \<noteq> []"
    and href: "parser (url c) = Some a"
    and noport: "port a = []"
  shows "parseQuery parser cfg cmds raw =
           Some (Inr \<lparr> r_key = Some k, r_query = trim raw, r_search = Some (trim rem),
                       r_splitBy = Some '' '', r_path = None,
                       r_url = Url (protocol a @ ''//'' @ hostname a
                                    @ replaceBraces t (encodeURIComponent (trim rem))),
                       r_searchTemplate = Some (Single t) \<rparr>)"
proof -
  have "\<not> list_all isNonSpace (trim raw)"
    unfolding form by (simp add: isNonSpace_def isWhiteSpace_def code_def)
  then have nourl: "\<not> isUrl (trim raw)"
    using isUrl_nonspace by blast
  have split: "splitFirst CHR '' '' (trim raw) = (k, Some rem)"
    unfolding form using splitFirst_form [OF nospace, of rem] rem(2)
    by (simp add: takeWhile_all)
  have fmt: "formatSearchUrl parser (url c) (searchTemplate c) (trim rem)
               = Inr (Url (protocol a @ ''//'' @ hostname a
                           @ replaceBraces t (encodeURIComponent (trim rem))))"
    using tmpl href by (simp add: formatSearchUrl_def splitUrl_def Let_def)
  have "searchCommand parser cfg cmds (trim raw) =
          Inr \<lparr> r_key = Some k, r_query = trim raw, r_search = Some (trim rem),
                r_splitBy = Some '' '', r_path = None,
                r_url = Url (protocol a @ ''//'' @ hostname a
                             @ replaceBraces t (encodeURIComponent (trim rem))),
                r_searchTemplate = Some (Single t) \<rparr>"
    using delim split known rem(1) fmt tmpl(1)
    by (simp add: searchCommand_def space_literal Let_def)
  then show ?thesis
    using nourl nokey by (subst parseQuery.simps) (simp add: Let_def)
qed

theorem search_command_url_witness:
  "commandSearchDelimiter (CONFIG firstRun) = '' ''
   \<and> trim '' y cats '' = ''y'' @ '' '' @ ''cats''
   \<and> get builtinCommands ''y''
       = Some (snd (entry ''y'' ''YouTube'' ''https://youtube.com/''
                     (Some (Single ''/results?search_query={}'')) (Some [''y/feed/subscriptions''])))
   \<and> parseQuery parseHref (CONFIG firstRun) builtinCommands '' y cats '' =
       Some (Inr \<lparr> r_key = Some ''y'', r_query = ''y cats'', r_search = Some ''cats'',
                   r_splitBy = Some '' '', r_path = None,
                   r_url = Url ''https://youtube.com/results?search_query=cats'',
                   r_searchTemplate = Some (Single ''/results?search_query={}'') \<rparr>)
   \<and> parseHref ''https://www.youtube.com/@veritasium'' = None
   \<and> parseQuery channelParser (CONFIG firstRun) channelStore ''v cats'' =
       Some (Inr \<lparr> r_key = Some ''v'', r_query = ''v cats'', r_search = Some ''cats'',
                   r_splitBy = Some '' '', r_path = None,
                   r_url = Url ''https://www.youtube.com/results?search_query=cats'',
                   r_searchTemplate = Some (Single ''/results?search_query={}'') \<rparr>)"
proof -
  let ?c = "snd (entry ''y'' ''YouTube'' ''https://youtube.com/''
                  (Some (Single ''/results?search_query={}'')) (Some [''y/feed/subscriptions'']))"
  let ?a = "\<lparr> protocol = ''https:'', hostname = ''youtube.com'', port = [],
              pathname = ''/'', search = [] \<rparr>"
  have d: "commandSearchDelimiter (CONFIG firstRun) = '' ''"
    by code_simp
  have f: "trim '' y cats '' = ''y'' @ '' '' @ ''cats''"
    by code_simp
  have k: "CHR '' '' \<notin> set ''y''"
    by simp
  have r: "''cats'' \<noteq> []" "list_all (\<lambda>c. \<not> isLineTerminator c) ''cats''"
    by code_simp+
  have n: "get builtinCommands (trim '' y cats '') = None"
    by code_simp
  have g: "get builtinCommands ''y'' = Some ?c"
    by code_simp
  have t: "searchTemplate ?c = Some (Single ''/results?search_query={}'')"
    "''/results?search_query={}'' \<noteq> []"
    by code_simp+
  have h: "parseHref (url ?c) = Some ?a"
    by code_simp
  have o: "port ?a = []"
    by simp
  have e: "trim ''cats'' = ''cats''" "encodeURIComponent ''cats'' = ''cats''"
    by code_simp+
  have q: "trim '' y cats '' = ''y cats''"
    by code_simp
  let ?c' = "snd (entry ''v'' ''Veritasium'' ''https://www.youtube.com/@veritasium''
                   (Some (Single ''/results?search_query={}'')) None)"
  let ?a' = "\<lparr> protocol = ''https:'', hostname = ''www.youtube.com'', port = [],
               pathname = ''/@veritasium'', search = [] \<rparr>"
  have f': "trim ''v cats'' = ''v'' @ '' '' @ ''cats''"
    by code_simp
  have k': "CHR '' '' \<notin> set ''v''"
    by simp
  have n': "get channelStore (trim ''v cats'') = None"
    by code_simp
  have g': "get channelStore ''v'' = Some ?c'"
    by code_simp
  have t': "searchTemplate ?c' = Some (Single ''/results?search_query={}'')"
    by code_simp
  have h': "channelParser (url ?c') = Some ?a'"
    by (simp add: channelParser_def entry_def)
  have o': "port ?a' = []"
    by simp
  have q': "trim ''v cats'' = ''v cats''"
    by code_simp
  have x: "parseHref ''https://www.youtube.com/@veritasium'' = None"
    by code_simp
  have A: "parseQuery parseHref (CONFIG firstRun) builtinCommands '' y cats '' =
       Some (Inr \<lparr> r_key = Some ''y'', r_query = ''y cats'', r_search = Some ''cats'',
                   r_splitBy = Some '' '', r_path = None,
                   r_url = Url ''https://youtube.com/results?search_query=cats'',
                   r_searchTemplate = Some (Single ''/results?search_query={}'') \<rparr>)"
    using search_command_url [where parser = parseHref, OF d f k r n g t h o]
    by (simp add: e q)
  have B: "parseQuery channelParser (CONFIG firstRun) channelStore ''v cats'' =
       Some (Inr \<lparr> r_key = Some ''v'', r_query = ''v cats'', r_search = Some ''cats'',
                   r_splitBy = Some '' '', r_path = None,
                   r_url = Url ''https://www.youtube.com/results?search_query=cats'',
                   r_searchTemplate = Some (Single ''/results?search_query={}'') \<rparr>)"
    using search_command_url [where parser = channelParser, OF d f' k' r n' g' t' t(2) h' o']
    by (simp add: e q')
  show ?thesis
    using A B d f g x by simp
qed

text \<open>
  Claim C3, as stated: for every input \<open>key + delimiter + remainder\<close> with a known key,
  the URL is the origin of the command's URL, a slash and the remainder. The split is at
  the first delimiter: with a key \<open>a/b\<close> that holds the delimiter, the input \<open>a/b/c\<close> is
  split into \<open>a\<close> and \<open>b/c\<close>, no case matches, and the result is the default search.
\<close>

theorem path_command_key_with_slash:
  "get slashedKey ''a/b''
     = Some (snd (entry ''a/b'' ''Example'' ''https://example.com/'' None None))
   \<and> ''a/b/c'' = ''a/b'' @ commandPathDelimiter (CONFIG firstRun) @ ''c''
   \<and> parseQuery parseHref (CONFIG firstRun) slashedKey ''a/b/c'' =
       Some (Inr \<lparr> r_key = None, r_query = ''a/b/c'', r_search = Some ''a/b/c'',
                   r_splitBy = None, r_path = None,
                   r_url = Url ''https://www.google.com/search?q=a%2Fb%2Fc'',
                   r_searchTemplate = None \<rparr>)
   \<and> ''https://www.google.com/search?q=a%2Fb%2Fc'' \<noteq> ''https://example.com'' @ ''/'' @ ''c''"
  by code_simp

text \<open>
  Claim C3, amended: with the slash as path delimiter and the space as search delimiter,
  let the trimmed input be \<open>key + slash + remainder\<close>, where the key holds no slash and
  is a known shortcut, the remainder is not empty and holds no line terminator, and none
  of the earlier cases applies (the trimmed input is no URL, is not itself a key of the
  store, and is no search command). Let the anchor element read the protocol \<open>P\<close>, the
  hostname \<open>H\<close> and an empty port from the command's URL. Then the result is the path
  command of that key: its URL is the origin \<open>P//H\<close>, a slash and the remainder as it
  is, with its slashes and without percent-encoding. This holds for every anchor element,
  that is, for every command URL, whatever its form.
\<close>

theorem path_command_url:
  assumes delim: "commandPathDelimiter cfg = ''/''"
    and sdelim: "commandSearchDelimiter cfg = '' ''"
    and form: "trim raw = k @ ''/'' @ p"
    and noslash: "CHR ''/'' \<notin> set k"
    and rem: "p \<noteq> []" "list_all (\<lambda>c. \<not> isLineTerminator c) p"
    and nourl: "\<not> isUrl (trim raw)"
    and nokey: "get cmds (trim raw) = None"
    and nosearch: "\<not> searchCaseApplies cfg cmds (trim raw)"
    and known: "get cmds k = Some c"
    and href: "parser (url c) = Some a"
    and noport: "port a = []"
  shows "parseQuery parser cfg cmds raw =
           Some (Inr \<lparr> r_key = Some k, r_query = trim raw, r_search = None,
                       r_splitBy = Some ''/'', r_path = Some p,
                       r_url = Url (protocol a @ ''//'' @ hostname a @ ''/'' @ p),
                       r_searchTemplate = None \<rparr>)"
proof -
  have split: "splitFirst CHR ''/'' (trim raw) = (k, Some p)"
    unfolding form using splitFirst_form [OF noslash, of p] rem(2)
    by (simp add: takeWhile_all)
  have "pathCommand parser cfg cmds (trim raw) =
          Inr \<lparr> r_key = Some k, r_query = trim raw, r_search = None,
                r_splitBy = Some ''/'', r_path = Some p,
                r_url = Url (protocol a @ ''//'' @ hostname a @ ''/'' @ p),
                r_searchTemplate = None \<rparr>"
    using delim split known rem(1) href
    by (simp add: pathCommand_def slash_literal splitUrl_def)
  then have "searchCommand parser cfg cmds (trim raw) =
          Inr \<lparr> r_key = Some k, r_query = trim raw, r_search = None,
                r_splitBy = Some ''/'', r_path = Some p,
                r_url = Url (protocol a @ ''//'' @ hostname a @ ''/'' @ p),
                r_searchTemplate = None \<rparr>"
    using searchCommand_falls [of cfg "CHR '' ''", OF _ nosearch] sdelim
    by (simp add: space_literal)
  then show ?thesis
    using nourl nokey by (subst parseQuery.simps) (simp add: Let_def)
qed

theorem path_command_url_witness:
  "commandPathDelimiter (CONFIG firstRun) = ''/''
   \<and> trim ''y/feed/subscriptions'' = ''y'' @ ''/'' @ ''feed/subscriptions''
   \<and> \<not> isUrl (trim ''y/feed/subscriptions'')
   \<and> \<not> searchCaseApplies (CONFIG firstRun) builtinCommands (trim ''y/feed/subscriptions'')
   \<and> parseQuery parseHref (CONFIG firstRun) builtinCommands ''y/feed/subscriptions'' =
       Some (Inr \<lparr> r_key = Some ''y'', r_query = ''y/feed/subscriptions'', r_search = None,
                   r_splitBy = Some ''/'', r_path = Some ''feed/subscriptions'',
                   r_url = Url ''https://youtube.com/feed/subscriptions'',
                   r_searchTemplate = None \<rparr>)
   \<and> parseHref ''https://www.youtube.com/@veritasium'' = None
   \<and> parseQuery channelParser (CONFIG firstRun) channelStore ''v/videos'' =
       Some (Inr \<lparr> r_key = Some ''v'', r_query = ''v/videos'', r_search = None,
                   r_splitBy = Some ''/'', r_path = Some ''videos'',
                   r_url = Url ''https://www.youtube.com/videos'',
                   r_searchTemplate = None \<rparr>)"
proof -
  let ?c = "snd (entry ''y'' ''YouTube'' ''https://youtube.com/''
                  (Some (Single ''/results?search_query={}'')) (Some [''y/feed/subscriptions'']))"
  let ?a = "\<lparr> protocol = ''https:'', hostname = ''youtube.com'', port = [],
              pathname = ''/'', search = [] \<rparr>"
  have d: "commandPathDelimiter (CONFIG firstRun) = ''/''"
    by code_simp
  have s: "commandSearchDelimiter (CONFIG firstRun) = '' ''"
    by code_simp
  have f: "trim ''y/feed/subscriptions'' = ''y'' @ ''/'' @ ''feed/subscriptions''"
    by code_simp
  have k: "CHR ''/'' \<notin> set ''y''"
    by simp
  have r: "''feed/subscriptions'' \<noteq> []"
    "list_all (\<lambda>c. \<not> isLineTerminator c) ''feed/subscriptions''"
    by code_simp+
  have u: "\<not> isUrl (trim ''y/feed/subscriptions'')"
    by code_simp
  have n: "get builtinCommands (trim ''y/feed/subscriptions'') = None"
    by code_simp
  have a: "\<not> searchCaseApplies (CONFIG firstRun) builtinCommands (trim ''y/feed/subscriptions'')"
    by code_simp
  have g: "get builtinCommands ''y'' = Some ?c"
    by code_simp
  have h: "parseHref (url ?c) = Some ?a"
    by code_simp
  have o: "port ?a = []"
    by simp
  have q: "trim ''y/feed/subscriptions'' = ''y/feed/subscriptions''"
    by code_simp
  let ?c' = "snd (entry ''v'' ''Veritasium'' ''https://www.youtube.com/@veritasium''
                   (Some (Single ''/results?search_query={}'')) None)"
  let ?a' = "\<lparr> protocol = ''https:'', hostname = ''www.youtube.com'', port = [],
               pathname = ''/@veritasium'', search = [] \<rparr>"
  have f': "trim ''v/videos'' = ''v'' @ ''/'' @ ''videos''"
    by code_simp
  have k': "CHR ''/'' \<notin> set ''v''"
    by simp
  have r': "''videos'' \<noteq> []" "list_all (\<lambda>c. \<not> isLineTerminator c) ''videos''"
    by code_simp+
  have u': "\<not> isUrl (trim ''v/videos'')"
    by code_simp
  have n': "get channelStore (trim ''v/videos'') = None"
    by code_simp
  have a': "\<not> searchCaseApplies (CONFIG firstRun) channelStore (trim ''v/videos'')"
    by code_simp
  have g': "get channelStore ''v'' = Some ?c'"
    by code_simp
  have h': "channelParser (url ?c') = Some ?a'"
    by (simp add: channelParser_def entry_def)
  have o': "port ?a' = []"
    by simp
  have q': "trim ''v/videos'' = ''v/videos''"
    by code_simp
  have x: "parseHref ''https://www.youtube.com/@veritasium'' = None"
    by code_simp
  have A: "parseQuery parseHref (CONFIG firstRun) builtinCommands ''y/feed/subscriptions'' =
       Some (Inr \<lparr> r_key = Some ''y'', r_query = ''y/feed/subscriptions'', r_search = None,
                   r_splitBy = Some ''/'', r_path = Some ''feed/subscriptions'',
                   r_url = Url ''https://youtube.com/feed/subscriptions'',
                   r_searchTemplate = None \<rparr>)"
    using path_command_url [where parser = parseHref, OF d s f k r u n a g h o]
    by (simp add: q)
  have B: "parseQuery channelParser (CONFIG firstRun) channelStore ''v/videos'' =
       Some (Inr \<lparr> r_key = Some ''v'', r_query = ''v/videos'', r_search = None,
                   r_splitBy = Some ''/'', r_path = Some ''videos'',
                   r_url = Url ''https://www.youtube.com/videos'',
                   r_searchTemplate = None \<rparr>)"
    using path_command_url [where parser = channelParser, OF d s f' k' r' u' n' a' g' h' o']
    by (simp add: q')
  show ?thesis
    using A B d f u a x by simp
qed

section \<open>Properties of persistence and of the settings dialog\<close>

lemma saveEditedShortcut_rejects:
  assumes "trim keyInput = [] \<or> trim nameInput = [] \<or> trim valueInput = []"
  shows "saveEditedShortcut k v keyInput nameInput valueInput ov st = (False, st)"
  using assms by (auto simp: saveEditedShortcut_def Let_def)

text \<open>
  Claim C6: creating or editing a shortcut whose key, name or URL is empty after trimming
  is rejected, with no change to the store and nothing persisted. The edit handler does
  so (\<open>saveEditedShortcut_rejects\<close>). The create handler checks the values as typed:
  a key of three spaces, empty after trimming, is accepted, stored under that key and
  persisted.
\<close>

theorem createNewShortcut_accepts_blank_key:
  "trim ''   '' = []
   \<and> fst (createNewShortcut ''   '' ''Docs'' ''docs.example.com'' False firstRun) = True
   \<and> get (COMMANDS (snd (createNewShortcut ''   '' ''Docs'' ''docs.example.com'' False firstRun)))
        ''   ''
      = Some \<lparr> name = ''Docs'', url = ''https://docs.example.com'', searchTemplate = None,
               suggestions = None, command = None, key = None \<rparr>
   \<and> get (COMMANDS firstRun) ''   '' = None
   \<and> ls_commands (localStorage firstRun) = None
   \<and> ls_commands
        (localStorage (snd (createNewShortcut ''   '' ''Docs'' ''docs.example.com'' False firstRun)))
      = Some (Document
          (COMMANDS (snd (createNewShortcut ''   '' ''Docs'' ''docs.example.com'' False firstRun))))"
  by code_simp

text \<open>
  Claim C7: importing the snapshot that \<open>exportConfig\<close> produces leaves the store and the
  configuration as they were. On the first run nothing is stored for the tab behaviour and
  links open in a new tab; \<open>exportConfig\<close> writes \<open>current\<close> for the missing entry, and
  the import of that snapshot turns \<open>openLinksInNewTab\<close> off.
\<close>

theorem import_of_export_changes_tab_behavior:
  "ls_tabBehavior (localStorage firstRun) = None
   \<and> openLinksInNewTab (CONFIG firstRun) = True
   \<and> s_tabBehavior (exportConfig firstRun) = Some ''current''
   \<and> openLinksInNewTab
        (CONFIG (handleImportFile False (Some (Settings (exportConfig firstRun))) True firstRun))
      = False"
  by code_simp

text \<open>
  Claim C8: when the stored shortcut document is present and \<open>JSON.parse\<close> rejects it,
  \<open>loadCommands\<close> leaves the store, the configuration and the storage as they are, and
  returns normally; on page load the store is then the built-in command set.
\<close>

theorem loadCommands_malformed_keeps_store:
  assumes "ls_commands (localStorage st) = Some (Malformed t)"
  shows "COMMANDS (loadCommands st) = COMMANDS st
         \<and> localStorage (loadCommands st) = localStorage st
         \<and> CONFIG (loadCommands st) = CONFIG st
         \<and> COMMANDS (pageLoad prefersLight (localStorage st)) = builtinCommands"
  using assms by (simp add: loadCommands_def pageLoad_def themeInit_def Let_def)

theorem loadCommands_malformed_keeps_store_witness:
  "ls_commands (localStorage (firstRun\<lparr> localStorage := emptyStorage\<lparr> ls_commands := Some (Malformed ''{oops'') \<rparr> \<rparr>))
     = Some (Malformed ''{oops'')
   \<and> COMMANDS (loadCommands (firstRun\<lparr> localStorage := emptyStorage\<lparr> ls_commands := Some (Malformed ''{oops'') \<rparr> \<rparr>))
     = builtinCommands
   \<and> COMMANDS (pageLoad True (emptyStorage\<lparr> ls_commands := Some (Malformed ''{oops'') \<rparr>))
     = builtinCommands"
proof -
  have h: "ls_commands (localStorage (firstRun\<lparr> localStorage := emptyStorage\<lparr> ls_commands := Some (Malformed ''{oops'') \<rparr> \<rparr>))
     = Some (Malformed ''{oops'')"
    by simp
  have c: "COMMANDS firstRun = builtinCommands"
    by code_simp
  show ?thesis
    using loadCommands_malformed_keeps_store [OF h, of True] c by simp
qed

subsection \<open>The search templates added on load\<close>

lemma fixEntry_key: "fst (fst (fixEntry e)) = fst e"
  by (simp add: fixEntry_def Let_def)

lemma loadLoop_eq:
  "loadLoop doc cmds upd =
     (map (\<lambda>e. fst (fixEntry e)) doc, setAll (map (\<lambda>e. fst (fixEntry e)) doc) cmds,
      upd \<or> list_ex (\<lambda>e. snd (fixEntry e)) doc)"
  by (induction doc arbitrary: cmds upd) (auto simp: setAll_def split: prod.splits)

lemma mapSet_fresh: "k \<notin> fst ` set m \<Longrightarrow> mapSet k v m = m @ [(k, v)]"
  by (induction m) auto

lemma setAll_distinct: "distinct (map fst (m @ xs)) \<Longrightarrow> setAll xs m = m @ xs"
proof (induction xs arbitrary: m)
  case Nil
  then show ?case by (simp add: setAll_def)
next
  case (Cons x xs)
  have "fst x \<notin> fst ` set m"
    using Cons.prems by auto
  then have "mapSet (fst x) (snd x) m = m @ [x]"
    by (simp add: mapSet_fresh)
  moreover have "distinct (map fst ((m @ [x]) @ xs))"
    using Cons.prems by simp
  ultimately show ?case
    using Cons.IH [of "m @ [x]"] by (simp add: setAll_def)
qed

lemma fixed_keys: "map fst (map (\<lambda>e. fst (fixEntry e)) doc) = map fst doc"
  by (induction doc) (simp_all add: fixEntry_key)

text \<open>
  Claim C10: loading the stored document is no verbatim restore. Let the document hold,
  under the key \<open>d\<close> or \<open>gh\<close>, a command without a search template. Then the store after
  \<open>loadCommands\<close> is the amended document, in which that command carries the fixed
  template of its key (\<open>/search/work?path=%2F&query={}\<close> for \<open>d\<close>, \<open>/search?q={}\<close> for
  \<open>gh\<close>), and the amended document is written back to storage.
\<close>

theorem loadCommands_adds_templates:
  assumes doc: "ls_commands (localStorage st) = Some (Document doc)"
    and dist: "distinct (map fst doc)"
    and mem: "(k, v) \<in> set doc"
    and k: "k = ''d'' \<or> k = ''gh''"
    and falsy: "falsyTemplate (searchTemplate v)"
  shows "COMMANDS (loadCommands st) = map (\<lambda>e. fst (fixEntry e)) doc
         \<and> ls_commands (localStorage (loadCommands st))
             = Some (Document (map (\<lambda>e. fst (fixEntry e)) doc))
         \<and> get (map (\<lambda>e. fst (fixEntry e)) doc) k =
             Some (v\<lparr> searchTemplate :=
                        Some (Single (if k = ''d'' then ''/search/work?path=%2F&query={}''
                                      else ''/search?q={}'')) \<rparr>)"
proof -
  let ?doc' = "map (\<lambda>e. fst (fixEntry e)) doc"
  let ?v' = "v\<lparr> searchTemplate :=
                  Some (Single (if k = ''d'' then ''/search/work?path=%2F&query={}''
                                else ''/search?q={}'')) \<rparr>"
  have "snd (fixEntry (k, v))"
    using k falsy by (auto simp: fixEntry_def Let_def)
  then have ex: "list_ex (\<lambda>e. snd (fixEntry e)) doc"
    using mem by (auto simp: list_ex_iff)
  have d': "distinct (map fst ?doc')"
    using dist by (simp only: fixed_keys)
  then have cmds: "setAll ?doc' [] = ?doc'"
    using setAll_distinct [of "[]" ?doc'] by simp
  have fx: "fst (fixEntry (k, v)) = (k, ?v')"
    using k falsy by (auto simp: fixEntry_def Let_def)
  have "fst (fixEntry (k, v)) \<in> set ?doc'"
    using mem by force
  then have "map_of ?doc' k = Some ?v'"
    using d' fx by (metis map_of_is_SomeI)
  then show ?thesis
    using doc ex cmds by (simp add: loadCommands_def loadLoop_eq get_def)
qed

theorem loadCommands_adds_templates_witness:
  "get (COMMANDS (loadCommands (firstRun\<lparr> localStorage :=
          emptyStorage\<lparr> ls_commands :=
            Some (Document [entry ''gh'' ''GitHub'' ''https://github.com/'' None None]) \<rparr> \<rparr>)))
      ''gh''
     = Some (snd (entry ''gh'' ''GitHub'' ''https://github.com/'' (Some (Single ''/search?q={}'')) None))
   \<and> ls_commands (localStorage (loadCommands (firstRun\<lparr> localStorage :=
          emptyStorage\<lparr> ls_commands :=
            Some (Document [entry ''gh'' ''GitHub'' ''https://github.com/'' None None]) \<rparr> \<rparr>)))
     = Some (Document
         [entry ''gh'' ''GitHub'' ''https://github.com/'' (Some (Single ''/search?q={}'')) None])"
proof -
  let ?e = "entry ''gh'' ''GitHub'' ''https://github.com/'' None None"
  let ?st = "firstRun\<lparr> localStorage := emptyStorage\<lparr> ls_commands := Some (Document [?e]) \<rparr> \<rparr>"
  have d: "ls_commands (localStorage ?st) = Some (Document [?e])"
    by simp
  have u: "distinct (map fst [?e])"
    by simp
  have m: "(''gh'', snd ?e) \<in> set [?e]"
    by (simp add: entry_def)
  have k: "''gh'' = ''d'' \<or> ''gh'' = ''gh''"
    by simp
  have f: "falsyTemplate (searchTemplate (snd ?e))"
    by (simp add: entry_def)
  have x: "map (\<lambda>e. fst (fixEntry e)) [?e]
             = [entry ''gh'' ''GitHub'' ''https://github.com/'' (Some (Single ''/search?q={}'')) None]"
    by code_simp
  have g: "get [entry ''gh'' ''GitHub'' ''https://github.com/'' (Some (Single ''/search?q={}'')) None] ''gh''
             = Some (snd (entry ''gh'' ''GitHub'' ''https://github.com/'' (Some (Single ''/search?q={}'')) None))"
    by code_simp
  show ?thesis
    using loadCommands_adds_templates [OF d u m k f] g
    by (simp only: x)
qed

subsection \<open>Export and import where the settings are stored\<close>

text \<open>
  The round trip does leave the store and the configuration as they were when no key is an
  array index and the tab behaviour and the search engine are stored and agree with the
  configuration in force. With an array-index key the order of the store changes, since
  the exported object lists such keys first.
\<close>

lemma objectFromEntries_plain:
  "list_all (\<lambda>e. \<not> isArrayIndex (fst e)) es \<Longrightarrow> objectFromEntries es = es"
  by (simp add: objectFromEntries_def list_all_iff filter_empty_conv filter_id_conv)

lemma import_of_export_when_stored:
  assumes "distinct (map fst (COMMANDS st))"
    and "list_all (\<lambda>e. \<not> isArrayIndex (fst e)) (COMMANDS st)"
    and "ls_tabBehavior (localStorage st) = Some tb" "tb \<noteq> []"
    and "openLinksInNewTab (CONFIG st) = (tb = ''new'')"
    and "ls_searchEngine (localStorage st) = Some se" "se \<noteq> []"
    and "defaultSearchEngine (CONFIG st) = se"
    and "defaultSearchTemplate (CONFIG st) = lookupProperty (searchEngineTemplates (CONFIG st)) se"
  shows "COMMANDS (handleImportFile pl (Some (Settings (exportConfig st))) True st) = COMMANDS st
         \<and> CONFIG (handleImportFile pl (Some (Settings (exportConfig st))) True st) = CONFIG st"
proof -
  have "setAll (COMMANDS st) [] = COMMANDS st"
    using setAll_distinct [of "[]" "COMMANDS st"] assms(1) by simp
  then show ?thesis
    using assms
    by (simp add: handleImportFile_def exportConfig_def importCommands_def
        importSearchEngine_def importTabBehavior_def importTheme_def applyTheme_def
        saveCommands_def orElse_def objectFromEntries_plain Let_def)
qed

lemma import_of_export_reorders:
  "map fst (COMMANDS (handleImportFile False (Some (Settings (exportConfig
      (firstRun\<lparr> COMMANDS := [entry ''b'' ''B'' ''https://b.example'' None None,
                              entry ''1'' ''One'' ''https://one.example'' None None] \<rparr>)))) True
      (firstRun\<lparr> COMMANDS := [entry ''b'' ''B'' ''https://b.example'' None None,
                              entry ''1'' ''One'' ''https://one.example'' None None] \<rparr>)))
   = [''1'', ''b'']"
  by code_simp

end
